theory Spec2Isabelle
  imports Main "HOL-Library.Sublist" "HOL-Library.Char_ord" "HOL-Library.List_Lexorder"
    "HOL-Library.Multiset"
begin

section \<open>JavaScript values\<close>

text \<open>
  The server handles values that come out of \<^verbatim>\<open>response.json()\<close> and \<^verbatim>\<open>JSON.parse\<close>:
  JSON values. \<open>undefined\<close> is not a JSON value, so an expression that may be
  \<open>undefined\<close> has type \<open>json option\<close> with \<open>None\<close> for \<open>undefined\<close>. Numbers are
  modelled as integers (the fields read by the code are counters and scores). An object
  is the list of its own properties; a well-formed object has no key twice and lookup
  takes the key's entry.
\<close>

datatype json =
    JNull
  | JBool bool
  | JNum int
  | JStr string
  | JArr "json list"
  | JObj "(string \<times> json) list"

text \<open>What a \<^verbatim>\<open>throw\<close> carries: the two built-in errors the code can run into, and
  \<^verbatim>\<open>new Error(message)\<close>.\<close>

datatype js_error = TypeError | SyntaxError | ErrorMsg string

type_synonym 'a result = "js_error + 'a"

definition bind_res :: "'a result \<Rightarrow> ('a \<Rightarrow> 'b result) \<Rightarrow> 'b result" where
  "bind_res m f = (case m of Inl e \<Rightarrow> Inl e | Inr x \<Rightarrow> f x)"

text \<open>Truthiness, as \<^verbatim>\<open>if (x)\<close>, \<^verbatim>\<open>!x\<close>, \<^verbatim>\<open>x || y\<close> and \<^verbatim>\<open>x && y\<close> test it.\<close>

fun truthy :: "json option \<Rightarrow> bool" where
  "truthy None = False"
| "truthy (Some JNull) = False"
| "truthy (Some (JBool b)) = b"
| "truthy (Some (JNum n)) = (n \<noteq> 0)"
| "truthy (Some (JStr s)) = (s \<noteq> [])"
| "truthy (Some (JArr xs)) = True"
| "truthy (Some (JObj kvs)) = True"

text \<open>\<^verbatim>\<open>x.k\<close>: a TypeError on \<open>null\<close> and \<open>undefined\<close>, the property of an object, and
  \<open>undefined\<close> on a primitive or an array (none of the property names the server reads
  is a built-in property of strings, numbers, booleans or arrays).\<close>

fun get_prop :: "json option \<Rightarrow> string \<Rightarrow> json option result" where
  "get_prop None k = Inl TypeError"
| "get_prop (Some JNull) k = Inl TypeError"
| "get_prop (Some (JObj kvs)) k = Inr (map_of kvs k)"
| "get_prop (Some v) k = Inr None"

text \<open>\<^verbatim>\<open>x?.k\<close>: \<open>undefined\<close> on \<open>null\<close> and \<open>undefined\<close>, never an error.\<close>

fun get_opt :: "json option \<Rightarrow> string \<Rightarrow> json option" where
  "get_opt (Some (JObj kvs)) k = map_of kvs k"
| "get_opt v k = None"

text \<open>\<^verbatim>\<open>x.k = v\<close> on an object: the entry is replaced where the key exists and added at
  the end otherwise.\<close>

fun obj_set :: "(string \<times> json) list \<Rightarrow> string \<Rightarrow> json \<Rightarrow> (string \<times> json) list" where
  "obj_set [] k v = [(k, v)]"
| "obj_set ((k', v') # kvs) k v =
     (if k' = k then (k, v) # kvs else (k', v') # obj_set kvs k v)"

section \<open>Strings\<close>

text \<open>Strings are byte strings here; the case mapping and the white space of
  JavaScript are modelled on ASCII.\<close>

definition lower_char :: "char \<Rightarrow> char" where
  "lower_char c =
     (let n = (of_char c :: nat) in if 65 \<le> n \<and> n \<le> 90 then char_of (n + 32) else c)"

definition upper_char :: "char \<Rightarrow> char" where
  "upper_char c =
     (let n = (of_char c :: nat) in if 97 \<le> n \<and> n \<le> 122 then char_of (n - 32) else c)"

definition toLowerCase :: "string \<Rightarrow> string" where
  "toLowerCase s = map lower_char s"

definition toUpperCase :: "string \<Rightarrow> string" where
  "toUpperCase s = map upper_char s"

definition is_space :: "char \<Rightarrow> bool" where
  "is_space c = ((of_char c :: nat) \<in> {9, 10, 11, 12, 13, 32})"

definition trim_end :: "string \<Rightarrow> string" where
  "trim_end s = rev (dropWhile is_space (rev s))"

definition trim :: "string \<Rightarrow> string" where
  "trim s = trim_end (dropWhile is_space s)"

text \<open>\<^verbatim>\<open>s.includes(p)\<close>\<close>

fun str_includes :: "string \<Rightarrow> string \<Rightarrow> bool" where
  "str_includes [] p = (p = [])"
| "str_includes (c # cs) p = (prefix p (c # cs) \<or> str_includes cs p)"

text \<open>\<^verbatim>\<open>s.split(sep)\<close> for a non-empty separator: the occurrences of \<open>sep\<close> are taken
  from the left and do not overlap. \<open>acc\<close> holds the current part, reversed.\<close>

fun split_from :: "string \<Rightarrow> string \<Rightarrow> string \<Rightarrow> string list" where
  "split_from sep acc [] = [rev acc]"
| "split_from sep acc (c # cs) =
     (if sep \<noteq> [] \<and> prefix sep (c # cs)
      then rev acc # split_from sep [] (drop (length sep - 1) cs)
      else split_from sep (c # acc) cs)"

definition js_split :: "string \<Rightarrow> string \<Rightarrow> string list" where
  "js_split sep s = split_from sep [] s"

text \<open>\<^verbatim>\<open>parts.join(sep)\<close> on strings\<close>

fun join :: "string \<Rightarrow> string list \<Rightarrow> string" where
  "join sep [] = []"
| "join sep [x] = x"
| "join sep (x # y # ys) = x @ sep @ join sep (y # ys)"

section \<open>The reviewer agent: conflict labels\<close>

definition vs :: string where
  "vs = '' vs ''"

text \<open>
  \<^verbatim>\<open>normalizeConflict(conflict)\<close>: \<open>null\<close> for a value that is falsy or not a string;
  otherwise the text in lower case with every period removed (the local \<^verbatim>\<open>normalized\<close>)
  and, when it contains
  \<^verbatim>\<open>' vs '\<close>, its parts trimmed, sorted (by code unit, as \<^verbatim>\<open>sort()\<close> does on strings)
  and joined again.
\<close>

definition normalized :: "string \<Rightarrow> string" where
  "normalized s = filter (\<lambda>c. c \<noteq> CHR ''.'') (toLowerCase s)"

definition normalizeConflict :: "json option \<Rightarrow> string option" where
  "normalizeConflict conflict =
     (case conflict of
        Some (JStr s) \<Rightarrow>
          if s = [] then None
          else if str_includes (normalized s) vs
          then Some (join vs (sort (map trim (js_split vs (normalized s)))))
          else Some (normalized s)
      | _ \<Rightarrow> None)"

text \<open>\<open>canon\<close> is \<open>normalizeConflict\<close> on a string; its result is a string or \<open>null\<close>,
  and \<open>canon2\<close> is \<open>normalizeConflict\<close> applied to that result.\<close>

definition canon :: "string \<Rightarrow> string option" where
  "canon s = normalizeConflict (Some (JStr s))"





section \<open>Numbers and values as text\<close>

definition digit_char :: "nat \<Rightarrow> char" where
  "digit_char d = char_of (48 + d)"

fun show_nat :: "nat \<Rightarrow> string" where
  "show_nat n = (if n < 10 then [digit_char n] else show_nat (n div 10) @ [digit_char (n mod 10)])"

declare show_nat.simps [simp del]

definition show_int :: "int \<Rightarrow> string" where
  "show_int i = (if i < 0 then CHR ''-'' # show_nat (nat (- i)) else show_nat (nat i))"

text \<open>Reading a decimal numeral back.\<close>

definition read_nat :: "string \<Rightarrow> nat" where
  "read_nat ds = foldl (\<lambda>n c. 10 * n + (of_char c - 48)) 0 ds"

text \<open>What a template literal \<^verbatim>\<open>`${v}`\<close> inserts for a value (an object that does not
  redefine \<^verbatim>\<open>toString\<close> prints as \<^verbatim>\<open>[object Object]\<close>; an array prints its elements
  joined by commas, with nothing for \<open>null\<close>).\<close>

fun to_text :: "json \<Rightarrow> string" where
  "to_text JNull = ''null''"
| "to_text (JBool b) = (if b then ''true'' else ''false'')"
| "to_text (JNum i) = show_int i"
| "to_text (JStr s) = s"
| "to_text (JArr xs) = join '','' (map (\<lambda>x. if x = JNull then [] else to_text x) xs)"
| "to_text (JObj kvs) = ''[object Object]''"

definition template :: "json option \<Rightarrow> string" where
  "template v = (case v of None \<Rightarrow> ''undefined'' | Some x \<Rightarrow> to_text x)"

text \<open>\<^verbatim>\<open>arr.join(sep)\<close> on an array of values: nothing for \<open>null\<close>.\<close>

definition join_values :: "string \<Rightarrow> json list \<Rightarrow> string" where
  "join_values sep xs = join sep (map (\<lambda>x. if x = JNull then [] else to_text x) xs)"

section \<open>The built-in JSON functions\<close>

text \<open>
  \<^verbatim>\<open>JSON.parse\<close> and \<^verbatim>\<open>JSON.stringify\<close> belong to the language, not to the repository:
  the model takes them as parameters. \<open>parse s = None\<close> stands for the SyntaxError that
  \<^verbatim>\<open>JSON.parse(s)\<close> throws.
\<close>

record json_lib =
  parse :: "string \<Rightarrow> json option"
  stringify :: "json \<Rightarrow> string"

text \<open>The three \<^verbatim>\<open>replace\<close> calls that strip a Markdown fence, and the final
  \<^verbatim>\<open>trim()\<close>: \<^verbatim>\<open>/^```json\s*/\<close>, \<^verbatim>\<open>/^```\s*/\<close>, \<^verbatim>\<open>/\s*```$/\<close>.\<close>

definition fence :: string where
  "fence = [CHR 0x60, CHR 0x60, CHR 0x60]"

definition strip_prefix_ws :: "string \<Rightarrow> string \<Rightarrow> string" where
  "strip_prefix_ws p s = (if prefix p s then dropWhile is_space (drop (length p) s) else s)"

definition strip_suffix_fence :: "string \<Rightarrow> string" where
  "strip_suffix_fence s =
     (if suffix fence s then trim_end (take (length s - length fence) s) else s)"

definition strip_fences :: "string \<Rightarrow> string" where
  "strip_fences s =
     trim (strip_suffix_fence (strip_prefix_ws fence (strip_prefix_ws (fence @ ''json'') s)))"

text \<open>\<^verbatim>\<open>s.match(/\{[\s\S]*\}/)\<close>: the text from the first \<^verbatim>\<open>{\<close> to the last \<^verbatim>\<open>}\<close> after
  it, or \<open>null\<close>.\<close>

definition brace_match :: "string \<Rightarrow> string option" where
  "brace_match s =
     (case dropWhile (\<lambda>c. c \<noteq> CHR ''{'') s of
        [] \<Rightarrow> None
      | c # rest \<Rightarrow>
          if CHR ''}'' \<in> set rest
          then Some (c # rev (dropWhile (\<lambda>c. c \<noteq> CHR ''}'') (rev rest)))
          else None)"

text \<open>The own enumerable properties that \<^verbatim>\<open>{...v}\<close> copies.\<close>

definition spread :: "json \<Rightarrow> (string \<times> json) list" where
  "spread v =
     (case v of
        JObj kvs \<Rightarrow> kvs
      | JStr s \<Rightarrow> zip (map show_nat [0..<length s]) (map (\<lambda>c. JStr [c]) s)
      | JArr xs \<Rightarrow> zip (map show_nat [0..<length xs]) xs
      | _ \<Rightarrow> [])"

text \<open>\<^verbatim>\<open>{ ...r, ...v }\<close>\<close>

definition merge :: "(string \<times> json) list \<Rightarrow> json \<Rightarrow> (string \<times> json) list" where
  "merge r v = fold (\<lambda>(k, x) acc. obj_set acc k x) (spread v) r"

section \<open>The reviewer agent: parsing the response\<close>

type_synonym obj = "(string \<times> json) list"

text \<open>The record that \<^verbatim>\<open>parseReviewerResponse\<close> starts from.\<close>

definition default_review :: obj where
  "default_review =
     [(''reasoning'', JStr ''Analysis pending...''),
      (''divergence_score'', JNum 0),
      (''risk_level'', JStr ''unknown''),
      (''primary_conflict'', JStr ''None detected''),
      (''conflict_summary'', JStr ''Insufficient data for analysis''),
      (''recommendation'', JStr ''No recommendation available'')]"

text \<open>
  The loop over \<^verbatim>\<open>agentResponse.steps\<close>. \<^verbatim>\<open>step.type\<close> throws on a \<open>null\<close> step; the
  error leaves the loop with the record as it is at that moment (\<open>Inl\<close>).
\<close>

fun steps_loop :: "json list \<Rightarrow> obj \<Rightarrow> (js_error \<times> obj) + obj" where
  "steps_loop [] r = Inr r"
| "steps_loop (step # rest) r =
     (case get_prop (Some step) ''type'' of
        Inl e \<Rightarrow> Inl (e, r)
      | Inr ty \<Rightarrow>
          let d = get_opt (get_opt (Some step) ''params'') ''data'' in
          if ty = Some (JStr ''tool_call'') \<and> truthy d \<and> get_opt d ''divergence_score'' \<noteq> None
          then steps_loop rest (merge r (the d))
          else steps_loop rest r)"

definition steps_phase :: "json \<Rightarrow> obj \<Rightarrow> (js_error \<times> obj) + obj" where
  "steps_phase agentResponse r =
     (case get_opt (Some agentResponse) ''steps'' of
        Some (JArr steps) \<Rightarrow> steps_loop steps r
      | _ \<Rightarrow> Inr r)"

text \<open>\<^verbatim>\<open>a || b\<close> on values\<close>

definition or_else :: "json option \<Rightarrow> json option \<Rightarrow> json option" where
  "or_else a b = (if truthy a then a else b)"

text \<open>The local \<^verbatim>\<open>jsonContent\<close> of the fallback, before the fences are stripped.\<close>

definition jsonContent :: "json_lib \<Rightarrow> json \<Rightarrow> json option" where
  "jsonContent lib agentResponse =
     or_else (get_opt (Some agentResponse) ''output'')
       (or_else (get_opt (Some agentResponse) ''message'')
          (or_else (get_opt (get_opt (Some agentResponse) ''response'') ''message'')
             (case agentResponse of
                JStr s \<Rightarrow> Some (JStr s)
              | _ \<Rightarrow> Some (JStr (stringify lib agentResponse)))))"

text \<open>The strict parse of the stripped text and, when it throws, the parse of the brace
  span of the stripped text; a parse that throws twice leaves the record alone.\<close>

definition merge_text :: "json_lib \<Rightarrow> string \<Rightarrow> obj \<Rightarrow> obj" where
  "merge_text lib text r =
     (let stripped = strip_fences text in
      case parse lib stripped of
        Some parsed \<Rightarrow> merge r parsed
      | None \<Rightarrow>
          (case brace_match stripped of
             None \<Rightarrow> r
           | Some m \<Rightarrow> (case parse lib m of Some parsed \<Rightarrow> merge r parsed | None \<Rightarrow> r)))"

definition fallback_phase :: "json_lib \<Rightarrow> json \<Rightarrow> obj \<Rightarrow> obj" where
  "fallback_phase lib agentResponse r =
     (if map_of r ''risk_level'' = Some (JStr ''unknown'')
      then
        (case jsonContent lib agentResponse of
           Some (JStr text) \<Rightarrow> merge_text lib text r
         | Some (JObj kvs) \<Rightarrow>
             if map_of kvs ''divergence_score'' \<noteq> None then merge r (JObj kvs) else r
         | _ \<Rightarrow> r)
      else r)"

text \<open>\<^verbatim>\<open>result.primary_conflict = normalizeConflict(result.primary_conflict) || result.primary_conflict\<close>,
  under \<^verbatim>\<open>if (result.primary_conflict)\<close>.\<close>

definition normalize_phase :: "obj \<Rightarrow> obj" where
  "normalize_phase r =
     (if truthy (map_of r ''primary_conflict'')
      then
        (case normalizeConflict (map_of r ''primary_conflict'') of
           Some c \<Rightarrow> if c \<noteq> [] then obj_set r ''primary_conflict'' (JStr c) else r
         | None \<Rightarrow> r)
      else r)"

text \<open>
  \<^verbatim>\<open>parseReviewerResponse(agentResponse)\<close>. The first statement,
  \<^verbatim>\<open>Object.keys(agentResponse)\<close>, stands before the \<^verbatim>\<open>try\<close> and throws on \<open>null\<close>. An
  error inside the \<^verbatim>\<open>try\<close> is caught, and the record is returned as it is then (the
  log line that ends the \<^verbatim>\<open>try\<close> block comes after the last change of the record).
\<close>

definition parseReviewerResponse :: "json_lib \<Rightarrow> json \<Rightarrow> json result" where
  "parseReviewerResponse lib agentResponse =
     (if agentResponse = JNull then Inl TypeError
      else
        (case steps_phase agentResponse default_review of
           Inl (e, r) \<Rightarrow> Inr (JObj r)
         | Inr r \<Rightarrow> Inr (JObj (normalize_phase (fallback_phase lib agentResponse r)))))"

section \<open>The reviewer agent: the call\<close>

definition newline :: string where
  "newline = [CHR 0x0A]"

text \<open>One entry of \<^verbatim>\<open>reactionsText\<close>. \<^verbatim>\<open>r.agent_mode.toUpperCase()\<close> throws unless the
  mode is a string, and \<^verbatim>\<open>(r.reason_codes || []).join(', ')\<close> throws on a truthy value
  that is no array.\<close>

definition reaction_text :: "json \<Rightarrow> string result" where
  "reaction_text r =
     bind_res (get_prop (Some r) ''agent_mode'') (\<lambda>mode.
       case mode of
         Some (JStr m) \<Rightarrow>
           bind_res
             (if truthy (get_opt (Some r) ''reason_codes'')
              then (case get_opt (Some r) ''reason_codes'' of
                      Some (JArr cs) \<Rightarrow> Inr (join_values '', '' cs)
                    | _ \<Rightarrow> Inl TypeError)
              else Inr [])
             (\<lambda>codes. Inr
               (toUpperCase m @ '':'' @ newline @
                ''  Feedback: '' @ template (get_opt (Some r) ''feedback_text'') @ newline @
                ''  Relatability: '' @ template (get_opt (Some r) ''relatability'') @
                '', Laugh Potential: '' @ template (get_opt (Some r) ''laugh_potential'') @
                '', Crowd Energy: '' @ template (get_opt (Some r) ''crowd_energy'') @ newline @
                ''  Reason Codes: '' @ codes))
       | _ \<Rightarrow> Inl TypeError)"

fun map_res :: "('a \<Rightarrow> 'b result) \<Rightarrow> 'a list \<Rightarrow> 'b list result" where
  "map_res f [] = Inr []"
| "map_res f (x # xs) =
     bind_res (f x) (\<lambda>y. bind_res (map_res f xs) (\<lambda>ys. Inr (y # ys)))"

definition reviewer_input :: "string \<Rightarrow> string \<Rightarrow> json list \<Rightarrow> string result" where
  "reviewer_input set_id line_text stage1 =
     bind_res (map_res reaction_text stage1) (\<lambda>texts. Inr
       (''set_id='' @ set_id @ newline @
        ''line_text='' @ line_text @ newline @ newline @
        ''REACTIONS:'' @ newline @
        join (newline @ newline) texts @ newline @ newline @
        ''Analyze these 4 reactions and provide your assessment.''))"

text \<open>
  \<^verbatim>\<open>callReviewerAgent\<close>. The external capability is the parameter \<open>agent\<close>: from the
  input text to the response body, or to the error thrown for a failed request. The
  first component of the result lists the inputs sent to it.
\<close>

definition callReviewerAgent ::
  "(string \<Rightarrow> json result) \<Rightarrow> string \<Rightarrow> string \<Rightarrow> json list \<Rightarrow> string list \<times> json result" where
  "callReviewerAgent agent set_id line_text stage1 =
     (case reviewer_input set_id line_text stage1 of
        Inl e \<Rightarrow> ([], Inl e)
      | Inr input \<Rightarrow> ([input], agent input))"

text \<open>The record that \<^verbatim>\<open>getReview\<close> returns for fewer than two reactions.\<close>

definition insufficient_review :: obj where
  "insufficient_review =
     [(''divergence_score'', JNum 0),
      (''risk_level'', JStr ''low''),
      (''primary_conflict'', JStr ''N/A''),
      (''conflict_summary'', JStr ''Insufficient data for analysis''),
      (''recommendation'', JStr ''Need more reactions to provide meaningful review'')]"

text \<open>\<^verbatim>\<open>getReview({ set_id, line_text, stage1 })\<close>; \<open>stage1 = None\<close> is a missing or
  \<open>null\<close> array.\<close>

definition getReview ::
  "(string \<Rightarrow> json result) \<Rightarrow> json_lib \<Rightarrow> string \<Rightarrow> string \<Rightarrow> json list option \<Rightarrow>
   string list \<times> json result" where
  "getReview agent lib set_id line_text stage1 =
     (case stage1 of
        None \<Rightarrow> ([], Inr (JObj insufficient_review))
      | Some rs \<Rightarrow>
          if length rs < 2 then ([], Inr (JObj insufficient_review))
          else
            (case callReviewerAgent agent set_id line_text rs of
               (calls, response) \<Rightarrow> (calls, bind_res response (parseReviewerResponse lib))))"

text \<open>
  Every strategy of \<^verbatim>\<open>parseReviewerResponse\<close> fails on a response: the loop over the
  steps ends, or throws, with the record untouched; and when it ends, the fallback
  content neither parses as it is nor through its brace span (or is an object without
  \<^verbatim>\<open>divergence_score\<close>, or no text and no object at all).
\<close>

definition extraction_fails :: "json_lib \<Rightarrow> json \<Rightarrow> bool" where
  "extraction_fails lib agentResponse =
     (case steps_phase agentResponse default_review of
        Inl (err, r) \<Rightarrow> r = default_review
      | Inr r \<Rightarrow>
          r = default_review \<and>
          (case jsonContent lib agentResponse of
             Some (JStr text) \<Rightarrow>
               parse lib (strip_fences text) = None \<and>
               (case brace_match (strip_fences text) of None \<Rightarrow> True | Some m \<Rightarrow> parse lib m = None)
           | Some (JObj kvs) \<Rightarrow> map_of kvs ''divergence_score'' = None
           | _ \<Rightarrow> True))"

text \<open>The loop over the steps throws (\<^verbatim>\<open>step.type\<close> on a \<open>null\<close> step).\<close>

definition steps_throw :: "json \<Rightarrow> bool" where
  "steps_throw agentResponse =
     (case steps_phase agentResponse default_review of Inl x \<Rightarrow> True | Inr r \<Rightarrow> False)"

text \<open>
  A stand-in for the built-in functions on concrete inputs: \<open>parse\<close> reads the listed
  texts and throws on every other text. The examples below list, for each text that is
  parsed, the value that \<^verbatim>\<open>JSON.parse\<close> gives, and they never reach \<open>stringify\<close> unless
  they say so.
\<close>

definition table_lib :: "(string \<times> json) list \<Rightarrow> json_lib" where
  "table_lib t = \<lparr>parse = map_of t, stringify = (\<lambda>v. [])\<rparr>"

section \<open>The perspective worker: extracting the record\<close>

text \<open>The test \<^verbatim>\<open>parsed.feedback_text || parsed.relatability\<close>; reading a property of
  \<open>null\<close> throws.\<close>

definition has_expected_keys :: "json \<Rightarrow> bool result" where
  "has_expected_keys parsed =
     bind_res (get_prop (Some parsed) ''feedback_text'') (\<lambda>f.
       if truthy f then Inr True
       else bind_res (get_prop (Some parsed) ''relatability'') (\<lambda>r. Inr (truthy r)))"

definition validated :: "json \<Rightarrow> json option result" where
  "validated parsed =
     bind_res (has_expected_keys parsed) (\<lambda>ok. Inr (if ok then Some parsed else None))"

text \<open>The body of the outer \<^verbatim>\<open>try\<close> of \<^verbatim>\<open>parseCandidate\<close>: \<^verbatim>\<open>text.replace\<close> throws on
  a value that is no string, \<^verbatim>\<open>JSON.parse\<close> on a text that is no JSON.\<close>

definition strict_candidate :: "json_lib \<Rightarrow> json \<Rightarrow> json option result" where
  "strict_candidate lib text =
     (case text of
        JStr s \<Rightarrow>
          (case parse lib (strip_fences s) of
             None \<Rightarrow> Inl SyntaxError
           | Some parsed \<Rightarrow> validated parsed)
      | _ \<Rightarrow> Inl TypeError)"

text \<open>The body of the inner \<^verbatim>\<open>try\<close>, on the text as it came.\<close>

definition brace_candidate :: "json_lib \<Rightarrow> json \<Rightarrow> json option result" where
  "brace_candidate lib text =
     (case text of
        JStr s \<Rightarrow>
          (case brace_match s of
             None \<Rightarrow> Inr None
           | Some m \<Rightarrow>
               (case parse lib m of
                  None \<Rightarrow> Inl SyntaxError
                | Some parsed \<Rightarrow> validated parsed))
      | _ \<Rightarrow> Inl TypeError)"

text \<open>\<^verbatim>\<open>parseCandidate(text)\<close>: the outer \<^verbatim>\<open>catch\<close> runs the inner \<^verbatim>\<open>try\<close>, whose
  \<^verbatim>\<open>catch\<close> is empty, and returns \<open>null\<close>.\<close>

definition parseCandidate :: "json_lib \<Rightarrow> json \<Rightarrow> json option result" where
  "parseCandidate lib text =
     (case strict_candidate lib text of
        Inr r \<Rightarrow> Inr r
      | Inl e \<Rightarrow>
          (case brace_candidate lib text of
             Inr r \<Rightarrow> Inr r
           | Inl e2 \<Rightarrow> Inr None))"

text \<open>\<^verbatim>\<open>if (!result && c) result = parseCandidate(c)\<close>\<close>

definition try_candidate :: "json_lib \<Rightarrow> json option \<Rightarrow> json option \<Rightarrow> json option result" where
  "try_candidate lib result c =
     (if \<not> truthy result \<and> truthy c then parseCandidate lib (the c) else Inr result)"

text \<open>The loop over \<^verbatim>\<open>agentResponse.steps\<close>; \<^verbatim>\<open>step.type\<close> throws on a \<open>null\<close> step,
  outside \<^verbatim>\<open>parseCandidate\<close>.\<close>

fun search_steps :: "json_lib \<Rightarrow> json list \<Rightarrow> json option \<Rightarrow> json option result" where
  "search_steps lib [] result = Inr result"
| "search_steps lib (step # rest) result =
     (case get_prop (Some step) ''type'' of
        Inl e \<Rightarrow> Inl e
      | Inr ty \<Rightarrow>
          if ty = Some (JStr ''message_creation'') \<and> truthy (get_opt (Some step) ''content'')
          then
            (case parseCandidate lib (the (get_opt (Some step) ''content'')) of
               Inl e \<Rightarrow> Inl e
             | Inr r \<Rightarrow> if truthy r then Inr r else search_steps lib rest r)
          else search_steps lib rest result)"

text \<open>
  The strategy chain of \<^verbatim>\<open>analyzePerspective\<close>, from \<^verbatim>\<open>let result = null\<close> to the final
  clean-up. It stands inside the \<^verbatim>\<open>try\<close> of the worker and has no \<^verbatim>\<open>try\<close> of its own:
  \<open>Inl\<close> is an error that leaves the chain.
\<close>

definition extract_record :: "json_lib \<Rightarrow> json \<Rightarrow> json option result" where
  "extract_record lib agentResponse =
     bind_res (get_prop (Some agentResponse) ''output'') (\<lambda>output.
     bind_res (try_candidate lib None output) (\<lambda>r1.
     bind_res (try_candidate lib r1 (get_opt (Some agentResponse) ''message'')) (\<lambda>r2.
     bind_res (try_candidate lib r2
                 (get_opt (get_opt (Some agentResponse) ''response'') ''message'')) (\<lambda>r3.
     bind_res (try_candidate lib r3
                 (get_opt (get_opt (Some agentResponse) ''response'') ''output'')) (\<lambda>r4.
     bind_res (if \<not> truthy r4
               then (case get_opt (Some agentResponse) ''steps'' of
                       Some (JArr steps) \<Rightarrow> search_steps lib steps r4
                     | _ \<Rightarrow> Inr r4)
               else Inr r4) (\<lambda>r5.
     bind_res (if \<not> truthy r5
               then parseCandidate lib (JStr (stringify lib agentResponse))
               else Inr r5) (\<lambda>r6.
       case r6 of
         Some (JStr s) \<Rightarrow>
           if s \<noteq> []
           then bind_res (parseCandidate lib (JStr s)) (\<lambda>re. Inr (if truthy re then re else r6))
           else Inr r6
       | _ \<Rightarrow> Inr r6)))))))"

section \<open>The perspective worker: tagging and the angles\<close>

definition perspectives :: "string list" where
  "perspectives =
     [''Literal'', ''Inferred'', ''Ambiguity Spotter'', ''The Skeptic'', ''The Fan'',
      ''The Surrealist'']"

text \<open>\<^verbatim>\<open>role.toLowerCase().replace(/ /g, '_')\<close>\<close>

definition roleId :: "string \<Rightarrow> string" where
  "roleId role = map (\<lambda>c. if c = CHR '' '' then CHR ''_'' else c) (toLowerCase role)"

text \<open>An entry of \<^verbatim>\<open>stage2Results\<close>.\<close>

record concept =
  concept_id :: string
  parent_feedback_id :: string
  concept_set_id :: string
  angle_name :: "json option"
  explanation :: "json option"
  exploration_direction :: "json option"

text \<open>The events of the stream; a heartbeat carries a time stamp only.\<close>

datatype event =
    Start string string
  | Progress string
  | ResultStage1 "json list" "concept list"
  | ResultStage3 json
  | ErrorEvent string
  | Ping
  | Done string

text \<open>What the handler holds between the steps of one request, and what it has written
  to the response so far.\<close>

record session =
  stage1Results :: "json list"
  stage2Results :: "concept list"
  completedCount :: nat
  events :: "event list"

text \<open>\<^verbatim>\<open>`f_${roleId}_${Date.now()}`\<close> and \<^verbatim>\<open>`c_${feedbackId}_${idx}`\<close>\<close>

definition feedbackId :: "string \<Rightarrow> nat \<Rightarrow> string" where
  "feedbackId role now = ''f_'' @ roleId role @ ''_'' @ show_nat now"

definition conceptId :: "string \<Rightarrow> nat \<Rightarrow> string" where
  "conceptId fid idx = ''c_'' @ fid @ ''_'' @ show_nat idx"

text \<open>\<^verbatim>\<open>result.feedback_id = feedbackId; result.agent_mode = roleId\<close>\<close>

definition tag_result :: "string \<Rightarrow> nat \<Rightarrow> obj \<Rightarrow> obj" where
  "tag_result role now kvs =
     obj_set (obj_set kvs ''feedback_id'' (JStr (feedbackId role now)))
       ''agent_mode'' (JStr (roleId role))"

text \<open>
  \<^verbatim>\<open>result.concepts.forEach((concept, idx) => stage2Results.push({...}))\<close>. Reading
  \<^verbatim>\<open>concept.angle_name\<close> throws on a \<open>null\<close> entry; the entries pushed before it stay.
\<close>

definition make_concept :: "string \<Rightarrow> string \<Rightarrow> nat \<Rightarrow> json \<Rightarrow> concept" where
  "make_concept set_id fid idx c =
     \<lparr>concept_id = conceptId fid idx,
      parent_feedback_id = fid,
      concept_set_id = set_id,
      angle_name = get_opt (Some c) ''angle_name'',
      explanation = get_opt (Some c) ''explanation'',
      exploration_direction = get_opt (Some c) ''exploration_direction''\<rparr>"

fun push_concepts ::
  "string \<Rightarrow> string \<Rightarrow> nat \<Rightarrow> json list \<Rightarrow> concept list \<Rightarrow> js_error option \<times> concept list" where
  "push_concepts set_id fid idx [] acc = (None, acc)"
| "push_concepts set_id fid idx (c # cs) acc =
     (case get_prop (Some c) ''angle_name'' of
        Inl e \<Rightarrow> (Some e, acc)
      | Inr name \<Rightarrow> push_concepts set_id fid (Suc idx) cs (acc @ [make_concept set_id fid idx c]))"

text \<open>
  The block under \<^verbatim>\<open>if (result)\<close>. An error in it is caught by the \<^verbatim>\<open>catch\<close> of the
  worker, which only logs: the session stays as it is at the throw. The chain returns
  objects only (see \<open>extract_record_object\<close> below), so the last case is never taken.
\<close>

definition accept :: "string \<Rightarrow> string \<Rightarrow> nat \<Rightarrow> json \<Rightarrow> session \<Rightarrow> session" where
  "accept set_id role now result s =
     (case result of
        JObj kvs \<Rightarrow>
          let tagged = tag_result role now kvs;
              s1 = s\<lparr>stage1Results := stage1Results s @ [JObj tagged]\<rparr>;
              pushed = (case map_of tagged ''concepts'' of
                          Some (JArr cs) \<Rightarrow>
                            push_concepts set_id (feedbackId role now) 0 cs (stage2Results s1)
                        | _ \<Rightarrow> (None, stage2Results s1));
              s2 = s1\<lparr>stage2Results := snd pushed\<rparr>
          in (case fst pushed of
                Some e \<Rightarrow> s2
              | None \<Rightarrow>
                  s2\<lparr>completedCount := Suc (completedCount s2),
                     events := events s2 @
                       [ResultStage1 (stage1Results s2) (stage2Results s2),
                        Progress (''Received '' @ role @ '' perspective ('' @
                                  show_nat (Suc (completedCount s2)) @ ''/6)...'')]\<rparr>)
      | _ \<Rightarrow> s)"

text \<open>
  \<^verbatim>\<open>analyzePerspective(role)\<close> from the point where the call to the agent settles:
  \<open>reply\<close> is the response body, or the error that \<^verbatim>\<open>callAgentBuilderConverse\<close> threw,
  and \<open>now\<close> is \<^verbatim>\<open>Date.now()\<close> at that point. Nothing in it waits, so it runs without
  interleaving with the other workers.
\<close>

definition analyzePerspective ::
  "json_lib \<Rightarrow> string \<Rightarrow> string \<Rightarrow> nat \<Rightarrow> json result \<Rightarrow> session \<Rightarrow> session" where
  "analyzePerspective lib set_id role now reply s =
     (case reply of
        Inl e \<Rightarrow> s
      | Inr agentResponse \<Rightarrow>
          (case extract_record lib agentResponse of
             Inl e \<Rightarrow> s
           | Inr result \<Rightarrow> if truthy result then accept set_id role now (the result) s else s))"

section \<open>Storing the documents\<close>

text \<open>A document of the bulk request: which stage it belongs to and the item its
  fields are read from (every document also carries the set id, the line and the time).\<close>

datatype es_doc = Stage1Doc json | Stage2Doc concept | Stage3Doc json

text \<open>The three loops that build \<^verbatim>\<open>docs\<close>; reading \<^verbatim>\<open>item.feedback_id\<close> throws on a
  \<open>null\<close> item.\<close>

definition build_docs :: "json list \<Rightarrow> concept list \<Rightarrow> json option \<Rightarrow> es_doc list result" where
  "build_docs stage1 stage2 stage3 =
     (if JNull \<in> set stage1 then Inl TypeError
      else Inr (map Stage1Doc stage1 @ map Stage2Doc stage2 @
                (if truthy stage3 then [Stage3Doc (the stage3)] else [])))"

text \<open>
  \<^verbatim>\<open>storeDocsToES\<close>: \<open>None\<close> when it returns, the error when it throws. With no document
  it returns before any request; otherwise the outcome is that of the bulk request
  (the parameter \<open>bulk\<close>: \<open>None\<close> for a response that the function accepts).
\<close>

definition storeDocsToES ::
  "(es_doc list \<Rightarrow> js_error option) \<Rightarrow> json list \<Rightarrow> concept list \<Rightarrow> json option \<Rightarrow>
   js_error option" where
  "storeDocsToES bulk stage1 stage2 stage3 =
     (case build_docs stage1 stage2 stage3 of
        Inl e \<Rightarrow> Some e
      | Inr docs \<Rightarrow> if docs = [] then None else bulk docs)"

section \<open>The streaming session\<close>

text \<open>
  What one request meets outside the handler: the identifier that \<^verbatim>\<open>uuidv4()\<close> returns,
  the clock when the six calls are sent and the time each call takes, the two agents
  (the perspective agent is called with the conversation id, and its prompt is the fixed
  template filled with the role and the trimmed line), the start-up flag
  \<^verbatim>\<open>reviewerEnabled\<close>, the bulk request, and the number of heartbeats that the interval
  timer fires while the handler waits for a role's call, for the first store
  (\<open>store\<close>), for the review (\<open>review\<close>) and for the second store (\<open>store3\<close>).
\<close>

record env =
  uuid :: string
  started :: nat
  latency :: "string \<Rightarrow> nat"
  agentBuilder :: "string \<Rightarrow> string \<Rightarrow> string \<Rightarrow> json result"
  reviewerAgent :: "string \<Rightarrow> json result"
  reviewerEnabled :: bool
  bulk :: "es_doc list \<Rightarrow> js_error option"
  pings :: "string \<Rightarrow> nat"

definition heartbeat :: "nat \<Rightarrow> session \<Rightarrow> session" where
  "heartbeat n s = s\<lparr>events := events s @ replicate n Ping\<rparr>"

text \<open>The calls settle in the order of their latencies (calls that settle together, in
  the order in which they were sent).\<close>

definition completion_order :: "env \<Rightarrow> string list" where
  "completion_order e = sort_key (latency e) perspectives"

definition agent_reply :: "env \<Rightarrow> string \<Rightarrow> string \<Rightarrow> json result" where
  "agent_reply e line role = agentBuilder e (uuid e @ ''-'' @ roleId role) role line"

definition settle :: "env \<Rightarrow> json_lib \<Rightarrow> string \<Rightarrow> string \<Rightarrow> session \<Rightarrow> session" where
  "settle e lib line role s =
     analyzePerspective lib (uuid e) role (started e + latency e role) (agent_reply e line role)
       (heartbeat (pings e role) s)"

text \<open>\<^verbatim>\<open>await Promise.all(perspectives.map(p => analyzePerspective(p)))\<close>: no worker
  rejects, so the wait ends when all six have settled.\<close>

definition fan_out :: "env \<Rightarrow> json_lib \<Rightarrow> string \<Rightarrow> session \<Rightarrow> session" where
  "fan_out e lib line s = fold (settle e lib line) (completion_order e) s"

text \<open>\<^verbatim>\<open>error.message || 'Analysis failed'\<close>; the built-in errors carry a non-empty
  message of the engine, for which their name stands here.\<close>

definition error_message :: "js_error \<Rightarrow> string" where
  "error_message err =
     (case err of
        ErrorMsg m \<Rightarrow> if m = [] then ''Analysis failed'' else m
      | TypeError \<Rightarrow> ''TypeError''
      | SyntaxError \<Rightarrow> ''SyntaxError'')"

definition review_failed :: event where
  "review_failed = ErrorEvent ''Review generation failed, but perspectives are available.''"

text \<open>Stage 3, with its own \<^verbatim>\<open>try\<close> and \<^verbatim>\<open>catch\<close>.\<close>

definition review_stage :: "env \<Rightarrow> json_lib \<Rightarrow> string \<Rightarrow> session \<Rightarrow> session" where
  "review_stage e lib line s =
     (if reviewerEnabled e \<and> stage1Results s \<noteq> []
      then
        let s1 = heartbeat (pings e ''review'')
                   (s\<lparr>events := events s @ [Progress ''Synthesizing reviews...'']\<rparr>)
        in (case snd (getReview (reviewerAgent e) lib (uuid e) line (Some (stage1Results s1))) of
              Inl err \<Rightarrow> s1\<lparr>events := events s1 @ [review_failed]\<rparr>
            | Inr stage3 \<Rightarrow>
                let s2 = heartbeat (pings e ''store3'') s1
                in (case storeDocsToES (bulk e) [] [] (Some stage3) of
                      Some err \<Rightarrow> s2\<lparr>events := events s2 @ [review_failed]\<rparr>
                    | None \<Rightarrow> s2\<lparr>events := events s2 @ [ResultStage3 stage3]\<rparr>))
      else s)"

definition initial_session :: "env \<Rightarrow> session" where
  "initial_session e =
     \<lparr>stage1Results = [], stage2Results = [], completedCount = 0,
      events = [Start (uuid e) ''l1'',
                Progress ''Consulting the council of comedy (6 perspectives)...'']\<rparr>"

text \<open>The session after the fan-out and the wait for the first store.\<close>

definition before_store :: "env \<Rightarrow> json_lib \<Rightarrow> string \<Rightarrow> session" where
  "before_store e lib line = heartbeat (pings e ''store'') (fan_out e lib line (initial_session e))"

definition first_store :: "env \<Rightarrow> json_lib \<Rightarrow> string \<Rightarrow> js_error option" where
  "first_store e lib line =
     storeDocsToES (bulk e) (stage1Results (before_store e lib line))
       (stage2Results (before_store e lib line)) None"

text \<open>
  The body of the handler from \<^verbatim>\<open>try\<close> to \<^verbatim>\<open>res.end()\<close>: the events written until the
  response is ended. \<^verbatim>\<open>sendEvent('done', ...)\<close> is the last statement of the \<^verbatim>\<open>try\<close>
  block; the outer \<^verbatim>\<open>catch\<close> writes an \<^verbatim>\<open>error\<close> event; \<^verbatim>\<open>finally\<close> stops the timer and
  ends the response.
\<close>

definition run_session :: "env \<Rightarrow> json_lib \<Rightarrow> string \<Rightarrow> event list" where
  "run_session e lib line =
     (case first_store e lib line of
        Some err \<Rightarrow> events (before_store e lib line) @ [ErrorEvent (error_message err)]
      | None \<Rightarrow> events (review_stage e lib line (before_store e lib line)) @ [Done (uuid e)])"

text \<open>\<^verbatim>\<open>POST /api/analyze\<close> on the \<^verbatim>\<open>line_text\<close> of the request body: status 400, or the
  event stream.\<close>

datatype response = Rejected nat | Stream "event list"

definition analyze :: "env \<Rightarrow> json_lib \<Rightarrow> json option \<Rightarrow> response" where
  "analyze e lib line_text =
     (case line_text of
        Some (JStr text) \<Rightarrow>
          if trim text = [] then Rejected 400 else Stream (run_session e lib (trim text))
      | _ \<Rightarrow> Rejected 400)"

text \<open>A worker fails when its call throws, when the chain throws, or when the chain
  ends with \<open>null\<close>.\<close>

definition worker_fails :: "env \<Rightarrow> json_lib \<Rightarrow> string \<Rightarrow> string \<Rightarrow> bool" where
  "worker_fails e lib line role =
     (case agent_reply e line role of
        Inl err \<Rightarrow> True
      | Inr agentResponse \<Rightarrow>
          (case extract_record lib agentResponse of
             Inl err \<Rightarrow> True
           | Inr result \<Rightarrow> \<not> truthy result))"

section \<open>Requests to the document store\<close>

text \<open>
  The searches that the server sends, by the parts of the query that vary or matter:
  \<^item> the history search, with the \<^verbatim>\<open>size\<close> of its composite aggregation on \<^verbatim>\<open>set_id\<close>;
  \<^item> the semantic search of \<^verbatim>\<open>findSimilarJokes\<close>, with the text, the \<^verbatim>\<open>size\<close> of its terms
    aggregation on \<^verbatim>\<open>set_id\<close>, and the set ids of its \<^verbatim>\<open>must_not\<close> clause;
  \<^item> the \<^verbatim>\<open>more_like_this\<close> search of the fallback, with the same three parts.

  The store is a parameter: from a search to the status and the parsed body of the
  response (\<open>null\<close> for an empty body), or to the error that \<^verbatim>\<open>fetch\<close> throws.
\<close>

datatype es_request =
    HistorySearch nat
  | SemanticSearch string int "string list"
  | MoreLikeThisSearch string int "string list"

type_synonym es_store = "es_request \<Rightarrow> (nat \<times> json) result"

text \<open>\<^verbatim>\<open>esRequest\<close>: throws on a status that is neither 2xx nor 404 (the message also
  quotes the body, which is left out here).\<close>

definition esRequest :: "es_store \<Rightarrow> es_request \<Rightarrow> (nat \<times> json) result" where
  "esRequest store req =
     (case store req of
        Inl err \<Rightarrow> Inl err
      | Inr (status, data) \<Rightarrow>
          if \<not> (200 \<le> status \<and> status < 300) \<and> status \<noteq> 404
          then Inl (ErrorMsg (''Elasticsearch error: '' @ show_nat status))
          else Inr (status, data))"

text \<open>\<^verbatim>\<open>a || d\<close> with a default that is a value\<close>

definition or_default :: "json option \<Rightarrow> json \<Rightarrow> json" where
  "or_default a d = (if truthy a then the a else d)"

text \<open>\<^verbatim>\<open>x?.[0]\<close>\<close>

definition first_elem :: "json option \<Rightarrow> json option" where
  "first_elem x =
     (case x of
        Some (JArr (y # ys)) \<Rightarrow> Some y
      | Some (JStr (c # cs)) \<Rightarrow> Some (JStr [c])
      | Some (JObj kvs) \<Rightarrow> map_of kvs ''0''
      | _ \<Rightarrow> None)"

text \<open>\<^verbatim>\<open>bucket.sample?.hits?.hits?.[0]\<close>; reading \<^verbatim>\<open>bucket.sample\<close> throws on a \<open>null\<close>
  bucket.\<close>

definition sample_hit :: "json \<Rightarrow> json option result" where
  "sample_hit bucket =
     bind_res (get_prop (Some bucket) ''sample'') (\<lambda>sample.
       Inr (first_elem (get_opt (get_opt sample ''hits'') ''hits'')))"

section \<open>The history\<close>

record history_item =
  item_set_id :: "json option"
  item_line_text :: json
  item_created_at :: json

record history_page =
  page_items :: "history_item list"
  page_total :: nat

text \<open>The callback of \<^verbatim>\<open>buckets.map\<close> in \<^verbatim>\<open>fetchHistory\<close>.\<close>

definition item_of_bucket :: "json \<Rightarrow> history_item result" where
  "item_of_bucket bucket =
     bind_res (sample_hit bucket) (\<lambda>first.
       let hit = Some (or_default (get_opt first ''_source'') (JObj [])) in
       bind_res (get_prop (Some bucket) ''key'') (\<lambda>key.
       bind_res (get_prop key ''set_id'') (\<lambda>sid.
         Inr \<lparr>item_set_id = sid,
              item_line_text = or_default (get_opt hit ''line_text'') (JStr ''Unknown''),
              item_created_at = or_default (get_opt hit ''created_at'') JNull\<rparr>)))"

text \<open>
  The time of \<^verbatim>\<open>new Date(created_at)\<close> in milliseconds. Reading a date text is the
  built-in \<^verbatim>\<open>Date.parse\<close>, the parameter \<open>date_parse\<close>; \<^verbatim>\<open>new Date(null)\<close> is time 0. The
  documents carry the text of \<^verbatim>\<open>new Date().toISOString()\<close>, which is a valid date; an
  invalid date, for which the comparison is \<open>NaN\<close>, is not modelled.
\<close>

definition date_ms :: "(string \<Rightarrow> int) \<Rightarrow> json \<Rightarrow> int" where
  "date_ms date_parse created =
     (case created of
        JNull \<Rightarrow> 0
      | JNum n \<Rightarrow> n
      | JBool b \<Rightarrow> (if b then 1 else 0)
      | v \<Rightarrow> date_parse (to_text v))"

text \<open>\<^verbatim>\<open>xs.slice(start, end)\<close>, with its reading of negative positions.\<close>

definition js_slice :: "'a list \<Rightarrow> int \<Rightarrow> int \<Rightarrow> 'a list" where
  "js_slice xs start end' =
     (let n = int (length xs);
          k = (if start < 0 then max (n + start) 0 else min start n);
          f = (if end' < 0 then max (n + end') 0 else min end' n)
      in take (nat (f - k)) (drop (nat k) xs))"

text \<open>
  The local \<^verbatim>\<open>allItems\<close> of \<^verbatim>\<open>fetchHistory\<close>: one search with composite size 1000, the
  buckets turned into items, and the items sorted by \<^verbatim>\<open>new Date(b.created_at) - new Date(a.created_at)\<close>
  (the sort is stable). Without buckets the function returns no items and total 0,
  as it does for an empty list of buckets.
\<close>

definition allItems :: "es_store \<Rightarrow> (string \<Rightarrow> int) \<Rightarrow> history_item list result" where
  "allItems store date_parse =
     bind_res (esRequest store (HistorySearch 1000)) (\<lambda>(status, data).
     bind_res (get_prop (Some data) ''aggregations'') (\<lambda>aggs.
       let buckets = get_opt (get_opt aggs ''unique_sets'') ''buckets'' in
       if \<not> truthy buckets then Inr []
       else
         (case buckets of
            Some (JArr bs) \<Rightarrow>
              bind_res (map_res item_of_bucket bs) (\<lambda>its.
                Inr (sort_key (\<lambda>it. - date_ms date_parse (item_created_at it)) its))
          | _ \<Rightarrow> Inl TypeError)))"

definition fetchHistory ::
  "es_store \<Rightarrow> (string \<Rightarrow> int) \<Rightarrow> int \<Rightarrow> int \<Rightarrow> history_page result" where
  "fetchHistory store date_parse limit offset =
     bind_res (allItems store date_parse) (\<lambda>all.
       Inr \<lparr>page_items = js_slice all offset (offset + limit), page_total = length all\<rparr>)"

section \<open>Similar jokes\<close>

record similar =
  sim_set_id :: "json option"
  sim_line_text :: json
  sim_score :: "json option"
  sim_divergence_score :: "json option"
  sim_risk_level :: "json option"
  sim_crowd_energy :: "json option"
  sim_created_at :: "json option"

text \<open>\<^verbatim>\<open>excludeSetId ? [{ term: { set_id: excludeSetId } }] : []\<close>\<close>

definition must_not :: "string option \<Rightarrow> string list" where
  "must_not excludeSetId =
     (case excludeSetId of Some sid \<Rightarrow> if sid \<noteq> [] then [sid] else [] | None \<Rightarrow> [])"

text \<open>\<^verbatim>\<open>data.aggregations?.unique_jokes?.buckets || []\<close>, then \<^verbatim>\<open>buckets.map\<close>, which throws
  on a truthy value that is no array.\<close>

definition joke_buckets :: "json option \<Rightarrow> json list result" where
  "joke_buckets aggs =
     (let buckets = get_opt (get_opt aggs ''unique_jokes'') ''buckets'' in
      if \<not> truthy buckets then Inr []
      else (case buckets of Some (JArr bs) \<Rightarrow> Inr bs | _ \<Rightarrow> Inl TypeError))"

text \<open>The callback of \<^verbatim>\<open>buckets.map\<close> in \<^verbatim>\<open>findSimilarJokes\<close>.\<close>

definition semantic_result :: "json \<Rightarrow> similar result" where
  "semantic_result bucket =
     bind_res (sample_hit bucket) (\<lambda>hit.
       let source = get_opt hit ''_source'' in
       Inr \<lparr>sim_set_id = get_opt (Some bucket) ''key'',
            sim_line_text = or_default (get_opt source ''line_text'') (JStr ''Unknown''),
            sim_score =
              Some (or_default (get_opt (get_opt (Some bucket) ''max_score'') ''value'') (JNum 0)),
            sim_divergence_score = get_opt source ''divergence_score'',
            sim_risk_level = get_opt source ''risk_level'',
            sim_crowd_energy = get_opt source ''crowd_energy'',
            sim_created_at = get_opt source ''created_at''\<rparr>)"

text \<open>The callback of \<^verbatim>\<open>buckets.map\<close> in the fallback; the score is the bucket's
  \<^verbatim>\<open>doc_count\<close>.\<close>

definition fallback_result :: "json \<Rightarrow> similar result" where
  "fallback_result bucket =
     bind_res (sample_hit bucket) (\<lambda>hit.
       let source = get_opt hit ''_source'' in
       Inr \<lparr>sim_set_id = get_opt (Some bucket) ''key'',
            sim_line_text = or_default (get_opt source ''line_text'') (JStr ''Unknown''),
            sim_score = get_opt (Some bucket) ''doc_count'',
            sim_divergence_score = None,
            sim_risk_level = None,
            sim_crowd_energy = get_opt source ''crowd_energy'',
            sim_created_at = get_opt source ''created_at''\<rparr>)"

text \<open>\<^verbatim>\<open>findSimilarJokesFallback\<close>; reading \<^verbatim>\<open>data.aggregations\<close> throws on an empty
  body.\<close>

definition findSimilarJokesFallback ::
  "es_store \<Rightarrow> string \<Rightarrow> int \<Rightarrow> string option \<Rightarrow> similar list result" where
  "findSimilarJokesFallback store line_text limit excludeSetId =
     bind_res (esRequest store (MoreLikeThisSearch line_text limit (must_not excludeSetId)))
       (\<lambda>(status, data).
     bind_res (get_prop (Some data) ''aggregations'') (\<lambda>aggs.
     bind_res (joke_buckets aggs) (\<lambda>bs. map_res fallback_result bs)))"

text \<open>The body of the \<^verbatim>\<open>try\<close> of \<^verbatim>\<open>findSimilarJokes\<close>; \<open>Inr None\<close> is the case in
  which it turns to the fallback by itself.\<close>

definition semantic_search ::
  "es_store \<Rightarrow> string \<Rightarrow> int \<Rightarrow> string option \<Rightarrow> similar list option result" where
  "semantic_search store line_text limit excludeSetId =
     bind_res (esRequest store (SemanticSearch line_text limit (must_not excludeSetId)))
       (\<lambda>(status, data).
       if status \<noteq> 200 then Inr None
       else
         bind_res (get_prop (Some data) ''aggregations'') (\<lambda>aggs.
           if \<not> truthy aggs then Inr None
           else bind_res (joke_buckets aggs) (\<lambda>bs.
                  bind_res (map_res semantic_result bs) (\<lambda>rs. Inr (Some rs)))))"

text \<open>\<^verbatim>\<open>findSimilarJokes\<close>: the \<^verbatim>\<open>catch\<close> turns to the fallback as well.\<close>

definition findSimilarJokes ::
  "es_store \<Rightarrow> string \<Rightarrow> int \<Rightarrow> string option \<Rightarrow> similar list result" where
  "findSimilarJokes store line_text limit excludeSetId =
     (case semantic_search store line_text limit excludeSetId of
        Inr (Some rs) \<Rightarrow> Inr rs
      | _ \<Rightarrow> findSimilarJokesFallback store line_text limit excludeSetId)"

section \<open>Notions used in the statements\<close>

text \<open>A record with a reaction text or a relatability rating.\<close>

definition usable :: "json \<Rightarrow> bool" where
  "usable v =
     (case v of
        JObj kvs \<Rightarrow> truthy (map_of kvs ''feedback_text'') \<or> truthy (map_of kvs ''relatability'')
      | _ \<Rightarrow> False)"

text \<open>The response is \<open>null\<close>, or its array of steps holds a \<open>null\<close>.\<close>

definition null_met :: "json \<Rightarrow> bool" where
  "null_met agentResponse =
     (agentResponse = JNull \<or>
      (case get_opt (Some agentResponse) ''steps'' of
         Some (JArr steps) \<Rightarrow> JNull \<in> set steps
       | _ \<Rightarrow> False))"


text \<open>What the worker of a role adds to \<^verbatim>\<open>stage1Results\<close>, read off its own reply.\<close>

definition worker_records :: "env \<Rightarrow> json_lib \<Rightarrow> string \<Rightarrow> string \<Rightarrow> json list" where
  "worker_records e lib line role =
     (case agent_reply e line role of
        Inl err \<Rightarrow> []
      | Inr agentResponse \<Rightarrow>
          (case extract_record lib agentResponse of
             Inr (Some (JObj kvs)) \<Rightarrow> [JObj (tag_result role (started e + latency e role) kvs)]
           | _ \<Rightarrow> []))"

definition is_done :: "event \<Rightarrow> bool" where
  "is_done ev = (case ev of Done sid \<Rightarrow> True | _ \<Rightarrow> False)"

text \<open>The successive calls \<^verbatim>\<open>fetchHistory(limit, 0)\<close>, \<^verbatim>\<open>fetchHistory(limit, limit)\<close>, ...,
  \<open>m\<close> of them, on one store.\<close>

definition history_pages ::
  "es_store \<Rightarrow> (string \<Rightarrow> int) \<Rightarrow> nat \<Rightarrow> nat \<Rightarrow> history_page result list" where
  "history_pages store date_parse limit m =
     map (\<lambda>k. fetchHistory store date_parse (int limit) (int (k * limit))) [0..<m]"

text \<open>The order of the history: not older than what follows.\<close>

definition newest_first :: "(string \<Rightarrow> int) \<Rightarrow> history_item list \<Rightarrow> bool" where
  "newest_first date_parse its =
     sorted_wrt (\<lambda>a b. date_ms date_parse (item_created_at b) \<le> date_ms date_parse (item_created_at a)) its"

text \<open>The buckets of the composite aggregation in a response body.\<close>

definition composite_buckets :: "json \<Rightarrow> json list" where
  "composite_buckets data =
     (case get_opt (get_opt (get_opt (Some data) ''aggregations'') ''unique_sets'') ''buckets'' of
        Some (JArr bs) \<Rightarrow> bs
      | _ \<Rightarrow> [])"

text \<open>The store returns at most \<open>n\<close> buckets for a composite aggregation of size \<open>n\<close>.\<close>

definition respects_size :: "es_store \<Rightarrow> nat \<Rightarrow> bool" where
  "respects_size store n =
     (case store (HistorySearch n) of
        Inr (status, data) \<Rightarrow> length (composite_buckets data) \<le> n
      | Inl err \<Rightarrow> True)"

text \<open>The items that a response body yields, bucket by bucket.\<close>

definition bucket_items :: "json \<Rightarrow> history_item list" where
  "bucket_items data =
     concat (map (\<lambda>b. case item_of_bucket b of Inr it \<Rightarrow> [it] | Inl err \<Rightarrow> [])
               (composite_buckets data))"

text \<open>The keys of the buckets of the terms aggregation in a response body.\<close>

definition joke_keys :: "json \<Rightarrow> json option list" where
  "joke_keys data =
     (case get_opt (get_opt (get_opt (Some data) ''aggregations'') ''unique_jokes'') ''buckets'' of
        Some (JArr bs) \<Rightarrow> map (\<lambda>b. get_opt (Some b) ''key'') bs
      | _ \<Rightarrow> [])"

text \<open>The store returns no bucket for a set id named in the \<^verbatim>\<open>must_not\<close> clause of the
  search.\<close>

definition respects_must_not :: "es_store \<Rightarrow> es_request \<Rightarrow> bool" where
  "respects_must_not store req =
     (case store req of
        Inl err \<Rightarrow> True
      | Inr (status, data) \<Rightarrow>
          (case req of
             HistorySearch n \<Rightarrow> True
           | SemanticSearch line n excluded \<Rightarrow>
               list_all (\<lambda>sid. Some (JStr sid) \<notin> set (joke_keys data)) excluded
           | MoreLikeThisSearch line n excluded \<Rightarrow>
               list_all (\<lambda>sid. Some (JStr sid) \<notin> set (joke_keys data)) excluded))"

text \<open>No result belongs to the analysis.\<close>

definition excludes :: "string \<Rightarrow> similar list result \<Rightarrow> bool" where
  "excludes sid outcome =
     (case outcome of
        Inl err \<Rightarrow> True
      | Inr rs \<Rightarrow> list_all (\<lambda>r. sim_set_id r \<noteq> Some (JStr sid)) rs)"

text \<open>What the chain holds in \<^verbatim>\<open>result\<close> between two strategies: \<open>null\<close> or a usable
  record.\<close>

definition good :: "json option \<Rightarrow> bool" where
  "good r = (case r of None \<Rightarrow> True | Some v \<Rightarrow> usable v)"

text \<open>No \<^verbatim>\<open>done\<close> event has been written.\<close>

definition no_done :: "session \<Rightarrow> bool" where
  "no_done s = (filter is_done (events s) = [])"

section \<open>A sample request\<close>

text \<open>
  The line of the specification's example. Five agents answer with the same plain
  JSON text, which names the mode \<open>literal\<close> and the identity \<open>f1\<close> whatever the role
  was; the call for \<open>Literal\<close> fails. \<open>demo_lib\<close> parses that text to the value that
  \<^verbatim>\<open>JSON.parse\<close> gives for it. The reviewer answers with a message that is no JSON. The
  flag of \<open>demo_env\<close> tells whether the bulk request succeeds.
\<close>

definition reply_text :: string where
  \<open>reply_text = ''{"agent_mode":"literal","feedback_id":"f1","feedback_text":"Ha!","concepts":[{"angle_name":"Party"}]}''\<close>

definition reply_record :: obj where
  "reply_record =
     [(''agent_mode'', JStr ''literal''), (''feedback_id'', JStr ''f1''),
      (''feedback_text'', JStr ''Ha!''),
      (''concepts'', JArr [JObj [(''angle_name'', JStr ''Party'')]])]"

definition demo_lib :: json_lib where
  "demo_lib = table_lib [(reply_text, JObj reply_record)]"

definition demo_env :: "bool \<Rightarrow> env" where
  "demo_env store_up =
     \<lparr>uuid = ''set-1'',
      started = 1000,
      latency = (\<lambda>role. if role = ''The Fan'' then 5 else 20),
      agentBuilder = (\<lambda>cid role line.
        if role = ''Literal'' then Inl (ErrorMsg ''Agent Builder error: 500 - down'')
        else Inr (JObj [(''output'', JStr reply_text)])),
      reviewerAgent = (\<lambda>input. Inr (JObj [(''message'', JStr ''Sorry, no analysis today'')])),
      reviewerEnabled = True,
      bulk = (\<lambda>docs. if store_up then None else Some (ErrorMsg ''ES bulk index error: 503 - busy'')),
      pings = (\<lambda>label. if label = ''review'' then 1 else 0)\<rparr>"

definition demo_line :: string where
  "demo_line = ''My favorite party trick is not attending parties.''"




text \<open>The sample request with every call to the perspective agent failing and the bulk
  request refused.\<close>

definition down_env :: env where
  "down_env =
     (demo_env False)\<lparr>agentBuilder :=
        (\<lambda>cid role line. Inl (ErrorMsg ''Agent Builder error: 500 - down''))\<rparr>"

section \<open>A sample store\<close>

text \<open>
  Five analyses \<open>a\<close> to \<open>e\<close>, created on the first five days of 2026 in the order
  \<open>b\<close>, \<open>d\<close>, \<open>a\<close>, \<open>e\<close>, \<open>c\<close>. The store answers every search with status 200 and the
  buckets in key order, cut at the size of the aggregation; it leaves out the analyses
  named in a \<^verbatim>\<open>must_not\<close> clause. \<open>demo_dates\<close> reads the five date texts as
  \<^verbatim>\<open>Date.parse\<close> does, and \<open>demo_history\<close> is the history, newest first.
\<close>

definition demo_source :: "string \<Rightarrow> string \<Rightarrow> json" where
  "demo_source line created =
     JObj [(''hits'', JObj [(''hits'', JArr [JObj [(''_source'',
       JObj [(''line_text'', JStr line), (''created_at'', JStr created)])]])])]"

definition demo_jokes :: "(string \<times> string \<times> string) list" where
  "demo_jokes =
     [(''a'', ''joke a'', ''2026-01-03T00:00:00.000Z''),
      (''b'', ''joke b'', ''2026-01-01T00:00:00.000Z''),
      (''c'', ''joke c'', ''2026-01-05T00:00:00.000Z''),
      (''d'', ''joke d'', ''2026-01-02T00:00:00.000Z''),
      (''e'', ''joke e'', ''2026-01-04T00:00:00.000Z'')]"

definition demo_dates :: "string \<Rightarrow> int" where
  "demo_dates s =
     (case map_of
        [(''2026-01-01T00:00:00.000Z'', 1767225600000),
         (''2026-01-02T00:00:00.000Z'', 1767312000000),
         (''2026-01-03T00:00:00.000Z'', 1767398400000),
         (''2026-01-04T00:00:00.000Z'', 1767484800000),
         (''2026-01-05T00:00:00.000Z'', 1767571200000)] s of
        Some t \<Rightarrow> t
      | None \<Rightarrow> 0)"

definition demo_body :: "string \<Rightarrow> json list \<Rightarrow> json" where
  "demo_body agg bs = JObj [(''aggregations'', JObj [(agg, JObj [(''buckets'', JArr bs)])])]"

definition demo_store :: es_store where
  "demo_store req =
     (case req of
        HistorySearch n \<Rightarrow>
          Inr (200, demo_body ''unique_sets''
            (map (\<lambda>(sid, line, created).
                    JObj [(''key'', JObj [(''set_id'', JStr sid)]), (''doc_count'', JNum 7),
                          (''sample'', demo_source line created)])
               (take n demo_jokes)))
      | SemanticSearch text n excluded \<Rightarrow>
          Inr (200, demo_body ''unique_jokes''
            (map (\<lambda>(sid, line, created).
                    JObj [(''key'', JStr sid), (''doc_count'', JNum 7),
                          (''sample'', demo_source line created),
                          (''max_score'', JObj [(''value'', JNum 12)])])
               (take (nat n) (filter (\<lambda>(sid, line, created). sid \<notin> set excluded) demo_jokes))))
      | MoreLikeThisSearch text n excluded \<Rightarrow>
          Inr (200, demo_body ''unique_jokes''
            (map (\<lambda>(sid, line, created).
                    JObj [(''key'', JStr sid), (''doc_count'', JNum 7),
                          (''sample'', demo_source line created)])
               (take (nat n) (filter (\<lambda>(sid, line, created). sid \<notin> set excluded) demo_jokes)))))"

definition demo_item :: "string \<Rightarrow> string \<Rightarrow> string \<Rightarrow> history_item" where
  "demo_item sid line created =
     \<lparr>item_set_id = Some (JStr sid), item_line_text = JStr line, item_created_at = JStr created\<rparr>"

definition demo_history :: "history_item list" where
  "demo_history =
     [demo_item ''c'' ''joke c'' ''2026-01-05T00:00:00.000Z'',
      demo_item ''e'' ''joke e'' ''2026-01-04T00:00:00.000Z'',
      demo_item ''a'' ''joke a'' ''2026-01-03T00:00:00.000Z'',
      demo_item ''d'' ''joke d'' ''2026-01-02T00:00:00.000Z'',
      demo_item ''b'' ''joke b'' ''2026-01-01T00:00:00.000Z'']"

text \<open>
  A store that holds \<open>held\<close> analyses, numbered from 0 and created on one day. It
  answers a history search with one bucket for each of the first analyses, as many as
  the size of the aggregation asks for, and offers no other search.
\<close>

definition numbered_bucket :: "nat \<Rightarrow> json" where
  "numbered_bucket k =
     JObj [(''key'', JObj [(''set_id'', JStr (show_nat k))]), (''doc_count'', JNum 1),
           (''sample'', demo_source ''a joke'' ''2026-01-01T00:00:00.000Z'')]"

definition numbered_item :: "nat \<Rightarrow> history_item" where
  "numbered_item k = demo_item (show_nat k) ''a joke'' ''2026-01-01T00:00:00.000Z''"

definition numbered_store :: "nat \<Rightarrow> es_store" where
  "numbered_store held req =
     (case req of
        HistorySearch n \<Rightarrow>
          Inr (200, demo_body ''unique_sets'' (map numbered_bucket [0..<min n held]))
      | _ \<Rightarrow> Inl (ErrorMsg ''unavailable''))"

section \<open>Lemmas on strings\<close>

























lemma normalized_Nil: "normalized s = [] \<Longrightarrow> \<not> str_includes (normalized s) vs"
  by (simp add: vs_def)












section \<open>Properties of the conflict labels\<close>




text \<open>Punctuation other than the period stays in the label.\<close>

lemma normalizeConflict_keeps_punctuation:
  "canon ''The Fan! vs. Literal, twice'' = Some ''literal, twice vs the fan!''"
  by code_simp

section \<open>Properties of the reviewer agent\<close>

text \<open>
  Claim C5. With no array of reactions, or with fewer than two reactions, \<open>getReview\<close>
  sends nothing to the external capability and returns the fixed record, whose
  divergence score is 0 and whose risk level is \<open>low\<close>.
\<close>

theorem getReview_insufficient:
  assumes "case stage1 of None \<Rightarrow> True | Some rs \<Rightarrow> length rs < 2"
  shows "getReview agent lib set_id line_text stage1 = ([], Inr (JObj insufficient_review)) \<and>
         map_of insufficient_review ''divergence_score'' = Some (JNum 0) \<and>
         map_of insufficient_review ''risk_level'' = Some (JStr ''low'')"
  using assms by (simp add: getReview_def insufficient_review_def split: option.splits)

theorem getReview_insufficient_witness:
  "getReview (\<lambda>input. Inl (ErrorMsg ''unreachable'')) (table_lib []) ''set-1'' ''A joke''
     (Some [JObj [(''agent_mode'', JStr ''literal'')]])
   = ([], Inr (JObj insufficient_review))"
  using getReview_insufficient [of "Some [JObj [(''agent_mode'', JStr ''literal'')]]"]
  by simp

lemma normalize_default:
  "normalize_phase default_review = obj_set default_review ''primary_conflict'' (JStr ''none detected'')"
  by code_simp

lemma fallback_fails:
  assumes "extraction_fails lib a" and "steps_phase a default_review = Inr r"
  shows "r = default_review \<and> fallback_phase lib a default_review = default_review"
proof (cases "jsonContent lib a")
  case None
  with assms show ?thesis by (simp add: fallback_phase_def extraction_fails_def)
next
  case (Some v)
  with assms show ?thesis
    by (cases v) (auto simp: fallback_phase_def extraction_fails_def merge_text_def Let_def
        split: option.splits)
qed

text \<open>
  Claim C6, as the code has it. On a response other than \<open>null\<close> on which every
  strategy fails, \<open>parseReviewerResponse\<close> throws nothing and returns the default record:
  divergence score 0, risk level \<open>unknown\<close> and the placeholder texts. Its conflict label
  is \<open>none detected\<close>, the default label after \<open>normalizeConflict\<close>; when the failure is
  an error thrown in the loop over the steps, which the \<^verbatim>\<open>catch\<close> takes before the label
  is normalized, the label is \<open>None detected\<close>.
\<close>

theorem parseReviewerResponse_extraction_fails:
  assumes "agentResponse \<noteq> JNull" and "extraction_fails lib agentResponse"
  shows "parseReviewerResponse lib agentResponse =
     Inr (JObj [(''reasoning'', JStr ''Analysis pending...''),
                (''divergence_score'', JNum 0),
                (''risk_level'', JStr ''unknown''),
                (''primary_conflict'',
                   JStr (if steps_throw agentResponse then ''None detected'' else ''none detected'')),
                (''conflict_summary'', JStr ''Insufficient data for analysis''),
                (''recommendation'', JStr ''No recommendation available'')])"
proof (cases "steps_phase agentResponse default_review")
  case (Inl x)
  obtain err r where x: "x = (err, r)" by (cases x)
  with Inl assms(2) have "r = default_review" by (simp add: extraction_fails_def)
  with Inl x assms(1) show ?thesis
    by (simp add: parseReviewerResponse_def steps_throw_def default_review_def)
next
  case (Inr r)
  from fallback_fails [OF assms(2) Inr] Inr assms(1)
  have "parseReviewerResponse lib agentResponse = Inr (JObj (normalize_phase default_review))"
    by (simp add: parseReviewerResponse_def)
  with Inr show ?thesis
    by (simp add: normalize_default steps_throw_def) (simp add: default_review_def)
qed

theorem parseReviewerResponse_extraction_fails_witness:
  "parseReviewerResponse (table_lib []) (JObj [(''message'', JStr ''Sorry, no analysis today'')]) =
     Inr (JObj [(''reasoning'', JStr ''Analysis pending...''),
                (''divergence_score'', JNum 0),
                (''risk_level'', JStr ''unknown''),
                (''primary_conflict'', JStr ''none detected''),
                (''conflict_summary'', JStr ''Insufficient data for analysis''),
                (''recommendation'', JStr ''No recommendation available'')]) \<and>
   parseReviewerResponse (table_lib []) (JObj [(''steps'', JArr [JNull])]) =
     Inr (JObj [(''reasoning'', JStr ''Analysis pending...''),
                (''divergence_score'', JNum 0),
                (''risk_level'', JStr ''unknown''),
                (''primary_conflict'', JStr ''None detected''),
                (''conflict_summary'', JStr ''Insufficient data for analysis''),
                (''recommendation'', JStr ''No recommendation available'')])"
proof -
  have a: "JObj [(''message'', JStr ''Sorry, no analysis today'')] \<noteq> JNull" by simp
  have b: "extraction_fails (table_lib []) (JObj [(''message'', JStr ''Sorry, no analysis today'')])"
    by code_simp
  have c: "\<not> steps_throw (JObj [(''message'', JStr ''Sorry, no analysis today'')])"
    by code_simp
  have a': "JObj [(''steps'', JArr [JNull])] \<noteq> JNull" by simp
  have b': "extraction_fails (table_lib []) (JObj [(''steps'', JArr [JNull])])"
    by code_simp
  have c': "steps_throw (JObj [(''steps'', JArr [JNull])])"
    by code_simp
  from parseReviewerResponse_extraction_fails [OF a b]
       parseReviewerResponse_extraction_fails [OF a' b'] c c'
  show ?thesis by simp
qed

text \<open>
  Claim C6 as stated fails on the label: the record returned when every strategy fails
  is not the record the function starts from, whose label is \<open>None detected\<close>. The
  response here carries a message that is no JSON text and holds no brace.
\<close>

theorem parseReviewerResponse_default_counterexample:
  "extraction_fails (table_lib []) (JObj [(''message'', JStr ''Sorry, no analysis today'')]) \<and>
   parseReviewerResponse (table_lib []) (JObj [(''message'', JStr ''Sorry, no analysis today'')])
     \<noteq> Inr (JObj default_review)"
  by code_simp

section \<open>Properties of the extraction chain\<close>

lemma get_prop_Inl: "get_prop (Some v) k = Inl e \<Longrightarrow> v = JNull \<and> e = TypeError"
  by (cases v) auto

lemma get_prop_Inr: "v \<noteq> JNull \<Longrightarrow> get_prop (Some v) k = Inr (get_opt (Some v) k)"
  by (cases v) auto

lemma validated_cases:
  "validated parsed = Inl TypeError \<or> validated parsed = Inr None \<or>
   (validated parsed = Inr (Some parsed) \<and> usable parsed)"
  by (cases parsed) (auto simp: validated_def has_expected_keys_def bind_res_def usable_def)

lemma good_None: "good None"
  by (simp add: good_def)

lemma usable_truthy: "usable v \<Longrightarrow> truthy (Some v)"
  by (cases v) (auto simp: usable_def)

lemma usable_obj: "usable v \<Longrightarrow> \<exists>kvs. v = JObj kvs"
  by (cases v) (auto simp: usable_def)

lemma good_falsy: "good r \<Longrightarrow> \<not> truthy r \<Longrightarrow> r = None"
  by (cases r) (auto simp: good_def dest: usable_truthy)

lemma validated_good: "validated parsed = Inr r \<Longrightarrow> good r"
  using validated_cases [of parsed] by (auto simp: good_def)

lemma validated_Inl: "validated parsed = Inl e \<Longrightarrow> e = TypeError"
  using validated_cases [of parsed] by auto

lemma strict_candidate_good: "strict_candidate lib text = Inr r \<Longrightarrow> good r"
  by (auto simp: strict_candidate_def split: json.splits option.splits dest: validated_good)

lemma brace_candidate_good: "brace_candidate lib text = Inr r \<Longrightarrow> good r"
  by (auto simp: brace_candidate_def good_def split: json.splits option.splits dest: validated_good)

lemma parseCandidate_total: "\<exists>r. parseCandidate lib text = Inr r \<and> good r"
  by (auto simp: parseCandidate_def good_def split: sum.splits
      dest: strict_candidate_good brace_candidate_good)

lemma try_candidate_total: "good result \<Longrightarrow> \<exists>r. try_candidate lib result c = Inr r \<and> good r"
  using parseCandidate_total by (auto simp: try_candidate_def)

lemma search_steps_cases:
  "good result \<Longrightarrow>
   (\<exists>r. search_steps lib steps result = Inr r \<and> good r) \<or>
   (search_steps lib steps result = Inl TypeError \<and> JNull \<in> set steps)"
proof (induction steps arbitrary: result)
  case Nil
  then show ?case by simp
next
  case (Cons step rest)
  show ?case
  proof (cases "step = JNull")
    case True
    then show ?thesis by simp
  next
    case False
    then have g: "get_prop (Some step) ''type'' = Inr (get_opt (Some step) ''type'')"
      by (rule get_prop_Inr)
    obtain r where r: "parseCandidate lib (the (get_opt (Some step) ''content'')) = Inr r" "good r"
      using parseCandidate_total by blast
    have "good None" by (simp add: good_def)
    from Cons.IH [OF Cons.prems] Cons.IH [OF r(2)] g r show ?thesis
      by (auto simp: good_def)
  qed
qed

lemma bind_res_Inr: "bind_res (Inr x) f = f x"
  by (simp add: bind_res_def)

lemma bind_res_Inl: "bind_res (Inl e) f = Inl e"
  by (simp add: bind_res_def)

lemma extract_record_cases:
  "extract_record lib a = Inr None \<or>
   (\<exists>v. extract_record lib a = Inr (Some v) \<and> usable v) \<or>
   (extract_record lib a = Inl TypeError \<and> null_met a)"
proof (cases "a = JNull")
  case True
  then show ?thesis by (simp add: extract_record_def bind_res_def null_met_def)
next
  case False
  then have p: "get_prop (Some a) ''output'' = Inr (get_opt (Some a) ''output'')"
    by (rule get_prop_Inr)
  obtain r1 where r1: "try_candidate lib None (get_opt (Some a) ''output'') = Inr r1" "good r1"
    using try_candidate_total [OF good_None] by blast
  obtain r2 where r2: "try_candidate lib r1 (get_opt (Some a) ''message'') = Inr r2" "good r2"
    using try_candidate_total [OF r1(2)] by blast
  obtain r3 where r3: "try_candidate lib r2 (get_opt (get_opt (Some a) ''response'') ''message'') = Inr r3" "good r3"
    using try_candidate_total [OF r2(2)] by blast
  obtain r4 where r4: "try_candidate lib r3 (get_opt (get_opt (Some a) ''response'') ''output'') = Inr r4" "good r4"
    using try_candidate_total [OF r3(2)] by blast
  let ?s5 = "if \<not> truthy r4
               then (case get_opt (Some a) ''steps'' of
                       Some (JArr steps) \<Rightarrow> search_steps lib steps r4
                     | _ \<Rightarrow> Inr r4)
               else Inr r4"
  define rest where "rest = (\<lambda>r5. bind_res (if \<not> truthy r5
               then parseCandidate lib (JStr (stringify lib a))
               else Inr r5) (\<lambda>r6.
       case r6 of
         Some (JStr s) \<Rightarrow>
           if s \<noteq> []
           then bind_res (parseCandidate lib (JStr s)) (\<lambda>re. Inr (if truthy re then re else r6))
           else Inr r6
       | _ \<Rightarrow> Inr r6))"
  have e: "extract_record lib a = bind_res ?s5 rest"
    by (simp add: extract_record_def p r1 r2 r3 r4 bind_res_def rest_def)
  have s5: "(\<exists>r5. ?s5 = Inr r5 \<and> good r5) \<or> (?s5 = Inl TypeError \<and> null_met a)"
  proof (cases "get_opt (Some a) ''steps''")
    case None
    with r4 show ?thesis by simp
  next
    case (Some st)
    show ?thesis
    proof (cases st)
      case (JArr steps)
      with Some search_steps_cases [OF r4(2), of lib steps] r4 show ?thesis
        by (auto simp: null_met_def)
    qed (use Some r4 in auto)
  qed
  have rest: "rest r5 = Inr None \<or> (\<exists>v. rest r5 = Inr (Some v) \<and> usable v)" if "good r5" for r5
  proof -
    have "\<exists>r6. (if \<not> truthy r5 then parseCandidate lib (JStr (stringify lib a)) else Inr r5) = Inr r6 \<and> good r6"
    proof (cases "truthy r5")
      case True
      with that show ?thesis by simp
    next
      case False
      with parseCandidate_total [of lib "JStr (stringify lib a)"] show ?thesis by simp
    qed
    then obtain r6 where r6: "(if \<not> truthy r5 then parseCandidate lib (JStr (stringify lib a)) else Inr r5) = Inr r6" "good r6"
      by blast
    show ?thesis
    proof (cases r6)
      case None
      with r6 show ?thesis by (simp add: bind_res_def rest_def)
    next
      case (Some v)
      with r6(2) have u: "usable v" by (simp add: good_def)
      then obtain kvs where "v = JObj kvs" using usable_obj by blast
      with Some r6 u show ?thesis by (simp add: bind_res_def rest_def)
    qed
  qed
  from s5 show ?thesis
  proof
    assume "\<exists>r5. ?s5 = Inr r5 \<and> good r5"
    then obtain r5 where r5: "?s5 = Inr r5" "good r5" by blast
    have "extract_record lib a = rest r5"
      unfolding e r5(1) by (simp only: bind_res_Inr)
    with rest [OF r5(2)] show ?thesis by auto
  next
    assume f: "?s5 = Inl TypeError \<and> null_met a"
    then have "extract_record lib a = Inl TypeError"
      unfolding e by (simp only: bind_res_Inl)
    with f show ?thesis by simp
  qed
qed

lemma extract_record_object: "extract_record lib a = Inr (Some v) \<Longrightarrow> \<exists>kvs. v = JObj kvs"
  using extract_record_cases [of lib a] usable_obj by auto

lemma analyzePerspective_alt:
  "analyzePerspective lib sid role now (Inr a) s =
     (case extract_record lib a of Inr (Some v) \<Rightarrow> accept sid role now v s | _ \<Rightarrow> s)"
  using extract_record_cases [of lib a]
  by (auto simp: analyzePerspective_def dest: usable_truthy)



section \<open>Properties of the worker\<close>



lemma accept_results:
  "stage1Results (accept sid role now (JObj kvs) s) = stage1Results s @ [JObj (tag_result role now kvs)]"
  by (simp add: accept_def Let_def split: option.splits json.splits prod.splits)



lemma read_nat_snoc: "read_nat (ds @ [c]) = 10 * read_nat ds + (of_char c - 48)"
  by (simp add: read_nat_def)

lemma read_digit: "d < 10 \<Longrightarrow> (of_char (digit_char d) :: nat) - 48 = d"
  by (simp add: digit_char_def)

lemma read_show_nat: "read_nat (show_nat n) = n"
proof (induction n rule: show_nat.induct)
  case (1 n)
  show ?case
  proof (cases "n < 10")
    case True
    then show ?thesis
      by (subst show_nat.simps) (simp add: read_nat_def read_digit)
  next
    case False
    have "read_nat (show_nat n) = read_nat (show_nat (n div 10) @ [digit_char (n mod 10)])"
      using False by (subst show_nat.simps) simp
    also have "\<dots> = 10 * (n div 10) + n mod 10"
      using False "1.IH" by (simp add: read_nat_snoc read_digit)
    finally show ?thesis by simp
  qed
qed

lemma show_nat_inj: "show_nat a = show_nat b \<Longrightarrow> a = b"
  by (metis read_show_nat)









section \<open>Properties of the fan-out and of the session\<close>

lemma heartbeat_results [simp]: "stage1Results (heartbeat n s) = stage1Results s"
  by (simp add: heartbeat_def)

lemma settle_results:
  "stage1Results (settle e lib line role s) = stage1Results s @ worker_records e lib line role"
proof (cases "agent_reply e line role")
  case (Inl err)
  then show ?thesis by (simp add: settle_def analyzePerspective_def worker_records_def)
next
  case (Inr a)
  show ?thesis
  proof (cases "extract_record lib a")
    case (Inl err)
    with Inr show ?thesis by (simp add: settle_def analyzePerspective_alt worker_records_def)
  next
    case r: (Inr r)
    show ?thesis
    proof (cases r)
      case None
      with Inr r show ?thesis by (simp add: settle_def analyzePerspective_alt worker_records_def)
    next
      case (Some v)
      with r obtain kvs where "v = JObj kvs" using extract_record_object by blast
      with Some Inr r show ?thesis
        by (simp add: settle_def analyzePerspective_alt worker_records_def accept_results)
    qed
  qed
qed

lemma fold_settle_results:
  "stage1Results (fold (settle e lib line) roles s) =
     stage1Results s @ concat (map (worker_records e lib line) roles)"
  by (induction roles arbitrary: s) (simp_all add: settle_results)

lemma worker_records_length:
  "length (worker_records e lib line role) = (if worker_fails e lib line role then 0 else 1)"
proof (cases "agent_reply e line role")
  case (Inl err)
  then show ?thesis by (simp add: worker_records_def worker_fails_def)
next
  case (Inr a)
  with extract_record_cases [of lib a] show ?thesis
    by (auto simp: worker_records_def worker_fails_def dest: usable_truthy usable_obj)
qed

lemma length_concat_records:
  "length (concat (map (worker_records e lib line) roles)) =
     length (filter (\<lambda>role. \<not> worker_fails e lib line role) roles)"
  by (induction roles) (simp_all add: worker_records_length)

lemma fan_out_count:
  "length (stage1Results (fan_out e lib line (initial_session e))) =
     6 - length (filter (worker_fails e lib line) perspectives)"
proof -
  let ?wf = "worker_fails e lib line"
  have "length (stage1Results (fan_out e lib line (initial_session e))) =
          length (filter (\<lambda>role. \<not> ?wf role) (completion_order e))"
    by (simp add: fan_out_def fold_settle_results initial_session_def length_concat_records)
  also have "\<dots> = length (filter (\<lambda>role. \<not> ?wf role) perspectives)"
    by (simp add: completion_order_def filter_sort)
  also have "\<dots> = length perspectives - length (filter ?wf perspectives)"
    using sum_length_filter_compl [of ?wf perspectives] by simp
  finally show ?thesis by (simp add: perspectives_def)
qed

lemma heartbeat_no_done: "no_done s \<Longrightarrow> no_done (heartbeat n s)"
  by (simp add: no_done_def heartbeat_def is_done_def)

lemma accept_no_done: "no_done s \<Longrightarrow> no_done (accept sid role now v s)"
  by (cases v) (simp_all add: no_done_def accept_def Let_def is_done_def split: option.splits)

lemma analyzePerspective_no_done: "no_done s \<Longrightarrow> no_done (analyzePerspective lib sid role now reply s)"
  by (simp add: analyzePerspective_def accept_no_done split: sum.splits)

lemma settle_no_done: "no_done s \<Longrightarrow> no_done (settle e lib line role s)"
  by (simp add: settle_def analyzePerspective_no_done heartbeat_no_done)

lemma fold_settle_no_done: "no_done s \<Longrightarrow> no_done (fold (settle e lib line) roles s)"
  by (induction roles arbitrary: s) (simp_all add: settle_no_done)

lemma before_store_no_done: "no_done (before_store e lib line)"
proof -
  have "no_done (initial_session e)"
    by (simp add: no_done_def initial_session_def is_done_def)
  then have "no_done (fan_out e lib line (initial_session e))"
    unfolding fan_out_def by (rule fold_settle_no_done)
  then show ?thesis
    unfolding before_store_def by (rule heartbeat_no_done)
qed

lemma review_stage_no_done: "no_done s \<Longrightarrow> no_done (review_stage e lib line s)"
  by (simp add: review_stage_def Let_def no_done_def heartbeat_def is_done_def review_failed_def
      split: sum.splits option.splits)

lemma run_session_stored:
  assumes "first_store e lib line = None"
  shows "last (run_session e lib line) = Done (uuid e) \<and>
         length (filter is_done (run_session e lib line)) = 1"
  using assms review_stage_no_done [OF before_store_no_done, of e lib line]
  by (simp add: run_session_def no_done_def is_done_def)

lemma run_session_failed:
  assumes "first_store e lib line = Some err"
  shows "last (run_session e lib line) = ErrorEvent (error_message err) \<and>
         filter is_done (run_session e lib line) = []"
  using assms before_store_no_done [of e lib line]
  by (simp add: run_session_def no_done_def is_done_def)

lemma worker_records_objects: "v \<in> set (worker_records e lib line role) \<Longrightarrow> v \<noteq> JNull"
  by (auto simp: worker_records_def split: sum.splits option.splits json.splits)

lemma before_store_results:
  "stage1Results (before_store e lib line) =
     concat (map (worker_records e lib line) (completion_order e))"
  by (simp add: before_store_def fan_out_def fold_settle_results initial_session_def)

lemma before_store_objects: "JNull \<notin> set (stage1Results (before_store e lib line))"
  using worker_records_objects by (fastforce simp: before_store_results)

lemma first_store_up: "(\<And>docs. bulk e docs = None) \<Longrightarrow> first_store e lib line = None"
  by (simp add: first_store_def storeDocsToES_def build_docs_def before_store_objects)

lemma first_store_down:
  assumes "\<And>docs. bulk e docs = Some err"
    and "length (filter (worker_fails e lib line) perspectives) < 6"
  shows "first_store e lib line = Some err"
proof -
  have "length (stage1Results (before_store e lib line)) =
          6 - length (filter (worker_fails e lib line) perspectives)"
    using fan_out_count [of e lib line] by (simp add: before_store_def)
  with assms(2) have "stage1Results (before_store e lib line) \<noteq> []" by auto
  with assms(1) show ?thesis
    by (simp add: first_store_def storeDocsToES_def build_docs_def before_store_objects)
qed

lemma demo_line_trim: "trim demo_line = demo_line"
  by code_simp

lemma demo_failures:
  "length (filter (worker_fails (demo_env b) demo_lib demo_line) perspectives) = 1"
  by (cases b) (simp_all, code_simp+)

lemma demo_store_up: "first_store (demo_env True) demo_lib demo_line = None"
  by (rule first_store_up) (simp add: demo_env_def)

lemma demo_store_down:
  "first_store (demo_env False) demo_lib demo_line = Some (ErrorMsg ''ES bulk index error: 503 - busy'')"
proof (rule first_store_down)
  show "bulk (demo_env False) docs = Some (ErrorMsg ''ES bulk index error: 503 - busy'')" for docs
    by (simp add: demo_env_def)
  show "length (filter (worker_fails (demo_env False) demo_lib demo_line) perspectives) < 6"
    by (simp add: demo_failures)
qed

lemma settle_fails:
  "worker_fails e lib line role \<Longrightarrow> settle e lib line role s = heartbeat (pings e role) s"
  by (auto simp: worker_fails_def settle_def analyzePerspective_def split: sum.splits)

lemma heartbeat_stage2 [simp]: "stage2Results (heartbeat n s) = stage2Results s"
  by (simp add: heartbeat_def)

lemma fold_settle_all_fail:
  "(\<And>role. role \<in> set roles \<Longrightarrow> worker_fails e lib line role) \<Longrightarrow>
   stage1Results (fold (settle e lib line) roles s) = stage1Results s \<and>
   stage2Results (fold (settle e lib line) roles s) = stage2Results s"
  by (induction roles arbitrary: s) (simp_all add: settle_fails)

lemma all_fail_nothing_stored:
  assumes "length (filter (worker_fails e lib line) perspectives) = 6"
  shows "first_store e lib line = None"
proof -
  have "length perspectives = 6" by (simp add: perspectives_def)
  with assms sum_length_filter_compl [of "worker_fails e lib line" perspectives]
  have "filter (\<lambda>role. \<not> worker_fails e lib line role) perspectives = []" by simp
  then have "\<And>role. role \<in> set (completion_order e) \<Longrightarrow> worker_fails e lib line role"
    by (auto simp: filter_empty_conv completion_order_def)
  from fold_settle_all_fail [OF this, of _ "initial_session e"]
  have "stage1Results (before_store e lib line) = [] \<and> stage2Results (before_store e lib line) = []"
    by (simp add: before_store_def fan_out_def initial_session_def)
  then show ?thesis
    by (simp add: first_store_def storeDocsToES_def build_docs_def)
qed

text \<open>
  Claim C3, as the code has it. The results after the fan-out are the records of the
  workers in the order in which they settle, each read off that worker's own reply, so
  with \<open>F\<close> failing workers out of six there are \<open>6 - F\<close> of them, for every \<open>F\<close>. No
  failure of a worker keeps the \<^verbatim>\<open>done\<close> event back: when the store that follows the
  fan-out returns, the stream ends with its single \<^verbatim>\<open>done\<close> event, and when all six
  workers fail nothing is stored and that store returns. When that store throws, the
  stream ends with the session's \<^verbatim>\<open>error\<close> event and holds no \<^verbatim>\<open>done\<close> event.
\<close>

theorem fan_out_isolated:
  "stage1Results (fan_out e lib line (initial_session e)) =
     concat (map (worker_records e lib line) (completion_order e)) \<and>
   length (stage1Results (fan_out e lib line (initial_session e))) =
     6 - length (filter (worker_fails e lib line) perspectives) \<and>
   (first_store e lib line = None \<longrightarrow>
      last (run_session e lib line) = Done (uuid e) \<and>
      length (filter is_done (run_session e lib line)) = 1) \<and>
   (length (filter (worker_fails e lib line) perspectives) = 6 \<longrightarrow>
      first_store e lib line = None) \<and>
   (\<forall>err. first_store e lib line = Some err \<longrightarrow>
      last (run_session e lib line) = ErrorEvent (error_message err) \<and>
      filter is_done (run_session e lib line) = [])"
  using run_session_stored [of e lib line] fan_out_count [of e lib line]
    all_fail_nothing_stored [of e lib line] run_session_failed [of e lib line]
  by (simp add: fan_out_def fold_settle_results initial_session_def)

theorem fan_out_isolated_witness:
  "length (filter (worker_fails (demo_env True) demo_lib demo_line) perspectives) = 1 \<and>
   length (stage1Results (fan_out (demo_env True) demo_lib demo_line (initial_session (demo_env True)))) = 5 \<and>
   first_store (demo_env True) demo_lib demo_line = None \<and>
   last (run_session (demo_env True) demo_lib demo_line) = Done ''set-1'' \<and>
   length (filter (worker_fails down_env demo_lib demo_line) perspectives) = 6 \<and>
   stage1Results (fan_out down_env demo_lib demo_line (initial_session down_env)) = [] \<and>
   last (run_session down_env demo_lib demo_line) = Done ''set-1''"
proof -
  have f: "length (filter (worker_fails (demo_env True) demo_lib demo_line) perspectives) = 1"
    by (rule demo_failures)
  have up: "first_store (demo_env True) demo_lib demo_line = None" by (rule demo_store_up)
  have u: "uuid (demo_env True) = ''set-1''" by (simp add: demo_env_def)
  note w = fan_out_isolated [of "demo_env True" demo_lib demo_line, THEN conjunct2]
  from w f have c: "length (stage1Results (fan_out (demo_env True) demo_lib demo_line
      (initial_session (demo_env True)))) = 5" by simp
  from w up u have d: "last (run_session (demo_env True) demo_lib demo_line) = Done ''set-1''"
    by simp
  have g: "length (filter (worker_fails down_env demo_lib demo_line) perspectives) = 6"
    by (simp add: worker_fails_def agent_reply_def down_env_def perspectives_def)
  have u': "uuid down_env = ''set-1''" by (simp add: down_env_def demo_env_def)
  note w' = fan_out_isolated [of down_env demo_lib demo_line, THEN conjunct2]
  from w' g have c': "stage1Results (fan_out down_env demo_lib demo_line (initial_session down_env)) = []"
    by simp
  from w' g u' have d': "last (run_session down_env demo_lib demo_line) = Done ''set-1''"
    by simp
  from f c up d g c' d' show ?thesis by blast
qed

text \<open>
  Claim C3 as stated fails on the \<^verbatim>\<open>done\<close> event: with one failing worker the five
  records are accumulated, the bulk request that follows is refused, and no \<^verbatim>\<open>done\<close>
  event is written.
\<close>

theorem fan_out_done_counterexample:
  "length (filter (worker_fails (demo_env False) demo_lib demo_line) perspectives) = 1 \<and>
   length (stage1Results (fan_out (demo_env False) demo_lib demo_line
      (initial_session (demo_env False)))) = 5 \<and>
   \<not> (\<exists>ev \<in> set (run_session (demo_env False) demo_lib demo_line). is_done ev)"
proof -
  have f: "length (filter (worker_fails (demo_env False) demo_lib demo_line) perspectives) = 1"
    by (rule demo_failures)
  from fan_out_count [of "demo_env False" demo_lib demo_line] f
  have c: "length (stage1Results (fan_out (demo_env False) demo_lib demo_line
      (initial_session (demo_env False)))) = 5" by simp
  from run_session_failed [OF demo_store_down]
  have "filter is_done (run_session (demo_env False) demo_lib demo_line) = []" by simp
  then have "\<not> (\<exists>ev \<in> set (run_session (demo_env False) demo_lib demo_line). is_done ev)"
    by (simp add: filter_empty_conv)
  with f c show ?thesis by blast
qed

text \<open>
  Claim C1, as the code has it. For an accepted line the handler streams events and
  ends the response. When the first store returns, the last event is \<^verbatim>\<open>done\<close> and it is
  the only \<^verbatim>\<open>done\<close> event; this covers a failing review, whose error event comes before
  it. When the first store throws, the last event is the session's \<^verbatim>\<open>error\<close> event and
  there is no \<^verbatim>\<open>done\<close> event.
\<close>

theorem session_terminal_event:
  assumes "trim text \<noteq> []"
  shows "\<exists>evs. analyze e lib (Some (JStr text)) = Stream evs \<and>
           (case first_store e lib (trim text) of
              None \<Rightarrow> last evs = Done (uuid e) \<and> length (filter is_done evs) = 1
            | Some err \<Rightarrow> last evs = ErrorEvent (error_message err) \<and> filter is_done evs = [])"
proof (cases "first_store e lib (trim text)")
  case None
  with assms run_session_stored [OF None] show ?thesis by (simp add: analyze_def)
next
  case (Some err)
  with assms run_session_failed [OF Some] show ?thesis by (simp add: analyze_def)
qed

theorem session_terminal_event_witness:
  "trim demo_line \<noteq> [] \<and>
   (\<exists>evs. analyze (demo_env True) demo_lib (Some (JStr demo_line)) = Stream evs \<and>
      last evs = Done ''set-1'' \<and> length (filter is_done evs) = 1) \<and>
   (\<exists>evs. analyze (demo_env False) demo_lib (Some (JStr demo_line)) = Stream evs \<and>
      last evs = ErrorEvent ''ES bulk index error: 503 - busy'' \<and> filter is_done evs = [])"
proof -
  have t: "trim demo_line \<noteq> []" by (simp add: demo_line_trim) (simp add: demo_line_def)
  have u: "uuid (demo_env True) = ''set-1''" by (simp add: demo_env_def)
  have m: "error_message (ErrorMsg ''ES bulk index error: 503 - busy'') = ''ES bulk index error: 503 - busy''"
    by (simp add: error_message_def)
  from session_terminal_event [OF t, of "demo_env True" demo_lib]
       session_terminal_event [OF t, of "demo_env False" demo_lib]
  show ?thesis using t by (simp add: demo_line_trim demo_store_up demo_store_down u m)
qed

text \<open>
  Claim C1 as stated fails when persistence fails: with five perspectives received and
  a bulk request that is refused, the stream ends with the \<^verbatim>\<open>error\<close> event and holds no
  \<^verbatim>\<open>done\<close> event.
\<close>

theorem session_done_counterexample:
  "\<exists>evs. analyze (demo_env False) demo_lib (Some (JStr demo_line)) = Stream evs \<and>
         \<not> (\<exists>ev \<in> set evs. is_done ev) \<and>
         last evs = ErrorEvent ''ES bulk index error: 503 - busy''"
proof -
  have t: "trim demo_line \<noteq> []" by (simp add: demo_line_trim) (simp add: demo_line_def)
  from run_session_failed [OF demo_store_down] t show ?thesis
    by (simp add: analyze_def error_message_def filter_empty_conv demo_line_trim)
qed

section \<open>Properties of the history\<close>

lemma js_slice_page:
  "js_slice xs (int off) (int off + int lim) = take lim (drop off xs)"
proof (cases "off \<le> length xs")
  case True
  then have "min (int off + int lim) (int (length xs)) - int off = int (min lim (length xs - off))"
    by (auto simp: min_def)
  with True show ?thesis by (simp add: js_slice_def Let_def min_def)
next
  case False
  then show ?thesis by (simp add: js_slice_def Let_def min_def)
qed

lemma concat_pages:
  "concat (map (\<lambda>k. take lim (drop (k * lim) xs)) [0..<m]) = take (m * lim) xs"
proof (induction m)
  case 0
  then show ?case by simp
next
  case (Suc m)
  have "take (m * lim) xs @ take lim (drop (m * lim) xs) = take (m * lim + lim) xs"
    by (simp add: take_add)
  with Suc show ?case by (simp add: add.commute)
qed

lemma fetchHistory_page:
  assumes "allItems store dp = Inr all"
  shows "fetchHistory store dp (int lim) (int off) =
           Inr \<lparr>page_items = take lim (drop off all), page_total = length all\<rparr>"
  using assms by (simp add: fetchHistory_def bind_res_def js_slice_page)

lemma map_res_Inr:
  "map_res f xs = Inr ys \<Longrightarrow> length ys = length xs \<and> (\<forall>i < length xs. f (xs ! i) = Inr (ys ! i))"
proof (induction xs arbitrary: ys)
  case Nil
  then show ?case by simp
next
  case (Cons x xs)
  from Cons.prems obtain y ys' where y: "f x = Inr y" "map_res f xs = Inr ys'" "ys = y # ys'"
    by (auto simp: bind_res_def split: sum.splits)
  with Cons.IH [OF y(2)] show ?case by (auto simp: nth_Cons split: nat.splits)
qed

lemma distinct_concat_nth:
  "distinct (concat xss) \<Longrightarrow> i < length xss \<Longrightarrow> j < length xss \<Longrightarrow> i \<noteq> j \<Longrightarrow>
   set (xss ! i) \<inter> set (xss ! j) = {}"
proof (induction xss arbitrary: i j)
  case Nil
  then show ?case by simp
next
  case (Cons xs xss)
  from Cons.prems(1) have d: "distinct (concat xss)"
    and x: "set xs \<inter> (\<Union>ys \<in> set xss. set ys) = {}" by auto
  show ?case
  proof (cases i)
    case 0
    with Cons.prems obtain j' where j: "j = Suc j'" "j' < length xss" by (cases j) auto
    then have "set (xss ! j') \<subseteq> (\<Union>ys \<in> set xss. set ys)" using nth_mem by blast
    with x 0 j show ?thesis by auto
  next
    case (Suc i')
    show ?thesis
    proof (cases j)
      case 0
      from Suc Cons.prems have "i' < length xss" by simp
      then have "set (xss ! i') \<subseteq> (\<Union>ys \<in> set xss. set ys)" using nth_mem by blast
      with x 0 Suc show ?thesis by auto
    next
      case j: (Suc j')
      with Suc Cons.prems Cons.IH [OF d, of i' j'] show ?thesis by simp
    qed
  qed
qed

lemma sort_key_newest_first:
  "newest_first dp (sort_key (\<lambda>it. - date_ms dp (item_created_at it)) its)"
proof -
  have "sorted (map (\<lambda>it. - date_ms dp (item_created_at it))
          (sort_key (\<lambda>it. - date_ms dp (item_created_at it)) its))"
    by (rule sorted_sort_key)
  then show ?thesis by (simp add: newest_first_def sorted_map)
qed

lemma allItems_cases:
  assumes "allItems store dp = Inr all"
  shows "all = [] \<or> (\<exists>its. all = sort_key (\<lambda>it. - date_ms dp (item_created_at it)) its)"
proof -
  from assms obtain status data where "esRequest store (HistorySearch 1000) = Inr (status, data)"
    by (cases "esRequest store (HistorySearch 1000)") (auto simp: allItems_def bind_res_def)
  with assms obtain aggs where a: "get_prop (Some data) ''aggregations'' = Inr aggs"
    and r: "(let buckets = get_opt (get_opt aggs ''unique_sets'') ''buckets'' in
       if \<not> truthy buckets then Inr []
       else
         (case buckets of
            Some (JArr bs) \<Rightarrow>
              bind_res (map_res item_of_bucket bs) (\<lambda>its.
                Inr (sort_key (\<lambda>it. - date_ms dp (item_created_at it)) its))
          | _ \<Rightarrow> Inl TypeError)) = Inr all"
    by (cases "get_prop (Some data) ''aggregations''") (auto simp: allItems_def bind_res_def)
  show ?thesis
  proof (cases "truthy (get_opt (get_opt aggs ''unique_sets'') ''buckets'')")
    case False
    with r show ?thesis by simp
  next
    case True
    then obtain v where v: "get_opt (get_opt aggs ''unique_sets'') ''buckets'' = Some v"
      by (cases "get_opt (get_opt aggs ''unique_sets'') ''buckets''") auto
    with r True show ?thesis
      by (cases v) (auto simp: bind_res_def split: sum.splits)
  qed
qed

lemma allItems_sorted:
  assumes "allItems store dp = Inr all"
  shows "newest_first dp all"
  using allItems_cases [OF assms] sort_key_newest_first [of dp]
  by (auto simp: newest_first_def)

text \<open>
  Claim C8. On a store whose history search succeeds, the history is ordered newest
  first, and the successive calls with a positive limit and the offsets 0, limit,
  twice the limit and so on return, once they cover the total, slices of at most limit
  items whose concatenation is the whole history in its order; each call reports the
  same total. When no item occurs twice in the history (the composite aggregation has
  one bucket for each set id), no item occurs twice in the slices and any two slices are
  disjoint.
\<close>

theorem fetchHistory_pages:
  assumes "allItems store dp = Inr all" and "0 < lim" and "length all \<le> m * lim"
  shows "\<exists>ps. history_pages store dp lim m = map Inr ps \<and>
           concat (map page_items ps) = all \<and>
           list_all (\<lambda>p. page_total p = length all \<and> length (page_items p) \<le> lim) ps \<and>
           newest_first dp all \<and>
           (distinct all \<longrightarrow> distinct (concat (map page_items ps)) \<and>
              (\<forall>i < m. \<forall>j < m. i \<noteq> j \<longrightarrow> set (page_items (ps ! i)) \<inter> set (page_items (ps ! j)) = {}))"
proof -
  define ps where "ps = map (\<lambda>k. \<lparr>page_items = take lim (drop (k * lim) all), page_total = length all\<rparr>) [0..<m]"
  have "fetchHistory store dp (int lim) (int (k * lim)) =
          Inr \<lparr>page_items = take lim (drop (k * lim) all), page_total = length all\<rparr>" for k
    by (rule fetchHistory_page [OF assms(1)])
  then have h: "history_pages store dp lim m = map Inr ps"
    by (simp add: history_pages_def ps_def del: of_nat_mult)
  have "map page_items ps = map (\<lambda>k. take lim (drop (k * lim) all)) [0..<m]"
    by (simp add: ps_def)
  then have c: "concat (map page_items ps) = all"
    using concat_pages [of lim all m] assms(3) by simp
  have l: "list_all (\<lambda>p. page_total p = length all \<and> length (page_items p) \<le> lim) ps"
    by (simp add: ps_def list_all_iff)
  have d: "\<forall>i < m. \<forall>j < m. i \<noteq> j \<longrightarrow> set (page_items (ps ! i)) \<inter> set (page_items (ps ! j)) = {}"
    if "distinct all"
  proof -
    have len: "length (map page_items ps) = m" by (simp add: ps_def)
    from that c have "distinct (concat (map page_items ps))" by simp
    from distinct_concat_nth [OF this] len
    have "\<forall>i < m. \<forall>j < m. i \<noteq> j \<longrightarrow>
        set (map page_items ps ! i) \<inter> set (map page_items ps ! j) = {}"
      by simp
    then show ?thesis by (simp add: ps_def)
  qed
  from h c l d allItems_sorted [OF assms(1)] show ?thesis by auto
qed

lemma demo_allItems: "allItems demo_store demo_dates = Inr demo_history"
  by code_simp

lemma demo_distinct: "distinct demo_history"
  by code_simp

theorem fetchHistory_pages_witness:
  "\<exists>ps. history_pages demo_store demo_dates 2 3 = map Inr ps \<and>
     concat (map page_items ps) = demo_history \<and>
     list_all (\<lambda>p. page_total p = 5 \<and> length (page_items p) \<le> 2) ps \<and>
     newest_first demo_dates demo_history \<and>
     set (page_items (ps ! 0)) \<inter> set (page_items (ps ! 1)) = {}"
proof -
  have l: "length demo_history = 5" by (simp add: demo_history_def)
  from fetchHistory_pages [OF demo_allItems, of 2 3] l demo_distinct
  show ?thesis by fastforce
qed

lemma esRequest_Inr: "esRequest store req = Inr (status, data) \<Longrightarrow> store req = Inr (status, data)"
  by (auto simp: esRequest_def split: sum.splits prod.splits if_splits)

lemma get_prop_data: "get_prop (Some data) k = Inr v \<Longrightarrow> v = get_opt (Some data) k"
  by (cases data) auto

lemma map_res_set:
  "map_res f xs = Inr ys \<Longrightarrow> set ys \<subseteq> set (concat (map (\<lambda>x. case f x of Inr y \<Rightarrow> [y] | Inl err \<Rightarrow> []) xs))"
proof (induction xs arbitrary: ys)
  case Nil
  then show ?case by simp
next
  case (Cons x xs)
  from Cons.prems obtain y ys' where y: "f x = Inr y" "map_res f xs = Inr ys'" "ys = y # ys'"
    by (auto simp: bind_res_def split: sum.splits)
  with Cons.IH [OF y(2)] show ?case by auto
qed

lemma map_res_length: "map_res f xs = Inr ys \<Longrightarrow> length ys = length xs"
  using map_res_Inr by blast

lemma allItems_source:
  assumes "allItems store dp = Inr all"
  shows "\<exists>status data. store (HistorySearch 1000) = Inr (status, data) \<and>
           length all \<le> length (composite_buckets data) \<and> set all \<subseteq> set (bucket_items data)"
proof -
  from assms obtain status data where e: "esRequest store (HistorySearch 1000) = Inr (status, data)"
    by (cases "esRequest store (HistorySearch 1000)") (auto simp: allItems_def bind_res_def)
  with assms obtain aggs where a: "get_prop (Some data) ''aggregations'' = Inr aggs"
    and r: "(let buckets = get_opt (get_opt aggs ''unique_sets'') ''buckets'' in
       if \<not> truthy buckets then Inr []
       else
         (case buckets of
            Some (JArr bs) \<Rightarrow>
              bind_res (map_res item_of_bucket bs) (\<lambda>its.
                Inr (sort_key (\<lambda>it. - date_ms dp (item_created_at it)) its))
          | _ \<Rightarrow> Inl TypeError)) = Inr all"
    by (cases "get_prop (Some data) ''aggregations''") (auto simp: allItems_def bind_res_def)
  from a have aggs: "aggs = get_opt (Some data) ''aggregations''" by (rule get_prop_data)
  have "length all \<le> length (composite_buckets data) \<and> set all \<subseteq> set (bucket_items data)"
  proof (cases "truthy (get_opt (get_opt aggs ''unique_sets'') ''buckets'')")
    case False
    with r show ?thesis by simp
  next
    case True
    then obtain v where v: "get_opt (get_opt aggs ''unique_sets'') ''buckets'' = Some v"
      by (cases "get_opt (get_opt aggs ''unique_sets'') ''buckets''") auto
    show ?thesis
    proof (cases v)
      case (JArr bs)
      with r True v obtain its where its: "map_res item_of_bucket bs = Inr its"
        and all: "all = sort_key (\<lambda>it. - date_ms dp (item_created_at it)) its"
        by (auto simp: bind_res_def split: sum.splits)
      from JArr v aggs have cb: "composite_buckets data = bs" by (simp add: composite_buckets_def)
      from map_res_set [OF its] map_res_length [OF its] all cb show ?thesis
        by (simp add: bucket_items_def)
    qed (use r True v in auto)
  qed
  with esRequest_Inr [OF e] show ?thesis by blast
qed

lemma set_js_slice: "set (js_slice xs a b) \<subseteq> set xs"
  unfolding js_slice_def Let_def by (meson set_drop_subset set_take_subset subset_trans)

lemma length_js_slice: "length (js_slice xs a b) \<le> length xs"
proof -
  have "length (take n (drop k xs)) \<le> length xs" for n k by simp
  then show ?thesis unfolding js_slice_def Let_def by blast
qed

lemma numbered_bucket_item: "item_of_bucket (numbered_bucket k) = Inr (numbered_item k)"
  by (simp add: item_of_bucket_def numbered_bucket_def numbered_item_def demo_item_def
      sample_hit_def demo_source_def bind_res_def first_elem_def or_default_def Let_def)

lemma map_res_numbered:
  "map_res item_of_bucket (map numbered_bucket ks) = Inr (map numbered_item ks)"
  by (induction ks) (simp_all add: numbered_bucket_item bind_res_def)

lemma numbered_respects: "respects_size (numbered_store held) n"
  by (simp add: respects_size_def numbered_store_def composite_buckets_def demo_body_def)

lemma numbered_allItems:
  "allItems (numbered_store held) dp =
     Inr (sort_key (\<lambda>it. - date_ms dp (item_created_at it))
            (map numbered_item [0..<min 1000 held]))"
  by (simp add: allItems_def esRequest_def numbered_store_def demo_body_def bind_res_def
      map_res_numbered Let_def)

lemma numbered_fetch:
  "fetchHistory (numbered_store held) dp limit offset =
     Inr \<lparr>page_items =
            js_slice (sort_key (\<lambda>it. - date_ms dp (item_created_at it))
                        (map numbered_item [0..<min 1000 held])) offset (offset + limit),
          page_total = min 1000 held\<rparr>"
  by (simp add: fetchHistory_def numbered_allItems bind_res_def)

lemma numbered_listed:
  assumes "it \<in> set (js_slice (sort_key f (map numbered_item [0..<n])) a b)"
  shows "\<exists>k < n. item_set_id it = Some (JStr (show_nat k))"
proof -
  from assms set_js_slice [of "sort_key f (map numbered_item [0..<n])" a b]
  have "it \<in> set (sort_key f (map numbered_item [0..<n]))" by auto
  then show ?thesis by (auto simp: numbered_item_def demo_item_def)
qed

text \<open>
  Claim C10. \<open>fetchHistory\<close> sends one history search, whose composite aggregation has
  size 1000, and lists nothing but the buckets of its response. So on a store that
  returns at most as many buckets as the size asks for, the total is at most 1000, and
  whatever limit and offset are supplied, every listed item comes from one of those at
  most 1000 buckets.
\<close>

theorem fetchHistory_capped:
  assumes "respects_size store 1000" and "fetchHistory store dp limit offset = Inr p"
  shows "page_total p \<le> 1000 \<and> length (page_items p) \<le> 1000 \<and>
         (\<exists>status data. store (HistorySearch 1000) = Inr (status, data) \<and>
            length (composite_buckets data) \<le> 1000 \<and>
            set (page_items p) \<subseteq> set (bucket_items data))"
proof -
  from assms(2) obtain all where all: "allItems store dp = Inr all"
    and p: "p = \<lparr>page_items = js_slice all offset (offset + limit), page_total = length all\<rparr>"
    by (cases "allItems store dp") (auto simp: fetchHistory_def bind_res_def)
  from allItems_source [OF all] obtain status data where
    s: "store (HistorySearch 1000) = Inr (status, data)"
    and l: "length all \<le> length (composite_buckets data)"
    and b: "set all \<subseteq> set (bucket_items data)" by blast
  from assms(1) s have c: "length (composite_buckets data) \<le> 1000"
    by (simp add: respects_size_def)
  have "length (page_items p) \<le> length all" by (simp add: p length_js_slice)
  moreover have "set (page_items p) \<subseteq> set all" by (simp add: p set_js_slice)
  ultimately show ?thesis using s l b c p by auto
qed

theorem fetchHistory_capped_witness:
  "respects_size (numbered_store 1003) 1000 \<and>
   (\<exists>p. fetchHistory (numbered_store 1003) demo_dates 2000 0 = Inr p \<and>
        page_total p = 1000 \<and> page_total p \<le> 1000 \<and> length (page_items p) \<le> 1000 \<and>
        Some (JStr ''1001'') \<notin> item_set_id ` set (page_items p)) \<and>
   (\<exists>status data. numbered_store 1003 (HistorySearch 2000) = Inr (status, data) \<and>
        length (composite_buckets data) = 1003)"
proof -
  let ?p = "\<lparr>page_items =
            js_slice (sort_key (\<lambda>it. - date_ms demo_dates (item_created_at it))
                        (map numbered_item [0..<min 1000 1003])) 0 (0 + 2000),
          page_total = min 1000 1003\<rparr>"
  have r: "respects_size (numbered_store 1003) 1000" by (rule numbered_respects)
  have f: "fetchHistory (numbered_store 1003) demo_dates 2000 0 = Inr ?p"
    by (rule numbered_fetch)
  have t: "page_total ?p = 1000" by simp
  have s: "show_nat 1001 = ''1001''" by code_simp
  have n: "Some (JStr ''1001'') \<notin> item_set_id ` set (page_items ?p)"
  proof
    assume "Some (JStr ''1001'') \<in> item_set_id ` set (page_items ?p)"
    then obtain it where i: "it \<in> set (page_items ?p)" and e: "item_set_id it = Some (JStr ''1001'')"
      by auto
    from i have "it \<in> set (js_slice (sort_key (\<lambda>it. - date_ms demo_dates (item_created_at it))
                        (map numbered_item [0..<1000])) 0 (0 + 2000))" by simp
    then have "\<exists>k < 1000. item_set_id it = Some (JStr (show_nat k))" by (rule numbered_listed)
    with e obtain k where "k < 1000" "show_nat k = ''1001''" by auto
    with s show_nat_inj [of k 1001] show False by simp
  qed
  have h: "\<exists>status data. numbered_store 1003 (HistorySearch 2000) = Inr (status, data) \<and>
        length (composite_buckets data) = 1003"
    by (simp add: numbered_store_def composite_buckets_def demo_body_def)
  from fetchHistory_capped [OF r f] have "page_total ?p \<le> 1000 \<and> length (page_items ?p) \<le> 1000"
    by blast
  with r f t n h show ?thesis by blast
qed

section \<open>Properties of the similarity search\<close>

lemma semantic_result_key: "semantic_result b = Inr r \<Longrightarrow> sim_set_id r = get_opt (Some b) ''key''"
  by (auto simp: semantic_result_def bind_res_def Let_def split: sum.splits)

lemma fallback_result_key: "fallback_result b = Inr r \<Longrightarrow> sim_set_id r = get_opt (Some b) ''key''"
  by (auto simp: fallback_result_def bind_res_def Let_def split: sum.splits)

lemma map_res_keys:
  assumes "\<And>b r. f b = Inr r \<Longrightarrow> sim_set_id r = get_opt (Some b) ''key''"
    and "map_res f bs = Inr rs"
  shows "map sim_set_id rs = map (\<lambda>b. get_opt (Some b) ''key'') bs"
  using assms(2)
proof (induction bs arbitrary: rs)
  case Nil
  then show ?case by simp
next
  case (Cons b bs)
  from Cons.prems obtain r rs' where r: "f b = Inr r" "map_res f bs = Inr rs'" "rs = r # rs'"
    by (auto simp: bind_res_def split: sum.splits)
  with Cons.IH [OF r(2)] assms(1) [OF r(1)] show ?case by simp
qed

lemma joke_buckets_keys:
  "joke_buckets (get_opt (Some data) ''aggregations'') = Inr bs \<Longrightarrow>
   map (\<lambda>b. get_opt (Some b) ''key'') bs = joke_keys data"
  by (auto simp: joke_buckets_def joke_keys_def Let_def split: if_splits option.splits json.splits)

lemma excludes_keys:
  assumes "Some (JStr sid) \<notin> set (joke_keys data)" and "map sim_set_id rs = joke_keys data"
  shows "excludes sid (Inr rs)"
proof -
  from assms have "Some (JStr sid) \<notin> set (map sim_set_id rs)" by simp
  then show ?thesis by (force simp: excludes_def list_all_iff)
qed

lemma fallback_excludes:
  assumes "sid \<noteq> []" and "respects_must_not store (MoreLikeThisSearch line limit [sid])"
  shows "excludes sid (findSimilarJokesFallback store line limit (Some sid))"
proof (cases "findSimilarJokesFallback store line limit (Some sid)")
  case (Inl err)
  then show ?thesis by (simp add: excludes_def)
next
  case (Inr rs)
  from assms(1) have m: "must_not (Some sid) = [sid]" by (simp add: must_not_def)
  from Inr m obtain status data where e: "esRequest store (MoreLikeThisSearch line limit [sid]) = Inr (status, data)"
    by (cases "esRequest store (MoreLikeThisSearch line limit [sid])")
       (auto simp: findSimilarJokesFallback_def bind_res_def)
  with Inr m obtain aggs where a: "get_prop (Some data) ''aggregations'' = Inr aggs"
    by (cases "get_prop (Some data) ''aggregations''")
       (auto simp: findSimilarJokesFallback_def bind_res_def)
  from a have aggs: "aggs = get_opt (Some data) ''aggregations''" by (rule get_prop_data)
  from Inr m e a obtain bs where b: "joke_buckets aggs = Inr bs" and r: "map_res fallback_result bs = Inr rs"
    by (cases "joke_buckets aggs") (auto simp: findSimilarJokesFallback_def bind_res_def)
  from map_res_keys [OF fallback_result_key r] joke_buckets_keys b aggs
  have k: "map sim_set_id rs = joke_keys data" by simp
  from assms(2) esRequest_Inr [OF e] have "Some (JStr sid) \<notin> set (joke_keys data)"
    by (simp add: respects_must_not_def)
  from excludes_keys [OF this k] Inr show ?thesis by simp
qed

lemma semantic_excludes:
  assumes "sid \<noteq> []" and "respects_must_not store (SemanticSearch line limit [sid])"
    and "semantic_search store line limit (Some sid) = Inr (Some rs)"
  shows "excludes sid (Inr rs)"
proof -
  from assms(1) have m: "must_not (Some sid) = [sid]" by (simp add: must_not_def)
  from assms(3) m obtain status data where e: "esRequest store (SemanticSearch line limit [sid]) = Inr (status, data)"
    by (cases "esRequest store (SemanticSearch line limit [sid])")
       (auto simp: semantic_search_def bind_res_def)
  with assms(3) m have s: "status = 200"
    by (auto simp: semantic_search_def bind_res_def split: if_splits)
  with assms(3) m e obtain aggs where a: "get_prop (Some data) ''aggregations'' = Inr aggs"
    by (cases "get_prop (Some data) ''aggregations''")
       (auto simp: semantic_search_def bind_res_def)
  from a have aggs: "aggs = get_opt (Some data) ''aggregations''" by (rule get_prop_data)
  from assms(3) m e s a obtain bs where b: "joke_buckets aggs = Inr bs" and r: "map_res semantic_result bs = Inr rs"
    by (cases "joke_buckets aggs"; cases "map_res semantic_result (projr (joke_buckets aggs))")
       (auto simp: semantic_search_def bind_res_def split: if_splits)
  from map_res_keys [OF semantic_result_key r] joke_buckets_keys b aggs
  have k: "map sim_set_id rs = joke_keys data" by simp
  from assms(2) esRequest_Inr [OF e] have "Some (JStr sid) \<notin> set (joke_keys data)"
    by (simp add: respects_must_not_def)
  from excludes_keys [OF this k] show ?thesis .
qed

text \<open>
  Claim C9. With a non-empty \<^verbatim>\<open>excludeSetId\<close>, both the semantic search and the
  \<^verbatim>\<open>more_like_this\<close> search carry it in their \<^verbatim>\<open>must_not\<close> clause, and the results are
  read off the buckets of the response. So on a store that returns no bucket for an
  excluded set id, no result of \<open>findSimilarJokes\<close> belongs to that analysis, whether the
  semantic search answers or the function turns to the fallback, and no result of the
  fallback does.
\<close>

theorem findSimilar_excludes:
  assumes "sid \<noteq> []"
    and "respects_must_not store (SemanticSearch line limit [sid])"
    and "respects_must_not store (MoreLikeThisSearch line limit [sid])"
  shows "excludes sid (findSimilarJokes store line limit (Some sid)) \<and>
         excludes sid (findSimilarJokesFallback store line limit (Some sid))"
proof -
  note f = fallback_excludes [OF assms(1) assms(3)]
  have "excludes sid (findSimilarJokes store line limit (Some sid))"
  proof (cases "semantic_search store line limit (Some sid)")
    case (Inl err)
    with f show ?thesis by (simp add: findSimilarJokes_def)
  next
    case (Inr r)
    show ?thesis
    proof (cases r)
      case None
      with Inr f show ?thesis by (simp add: findSimilarJokes_def)
    next
      case (Some rs)
      with Inr semantic_excludes [OF assms(1) assms(2)] show ?thesis
        by (simp add: findSimilarJokes_def)
    qed
  qed
  with f show ?thesis by simp
qed

theorem findSimilar_excludes_witness:
  "(case findSimilarJokes demo_store ''party'' 5 (Some ''c'') of
      Inr rs \<Rightarrow> map sim_set_id rs =
                 [Some (JStr ''a''), Some (JStr ''b''), Some (JStr ''d''), Some (JStr ''e'')]
    | Inl err \<Rightarrow> False) \<and>
   excludes ''c'' (findSimilarJokes demo_store ''party'' 5 (Some ''c'')) \<and>
   excludes ''c'' (findSimilarJokesFallback demo_store ''party'' 5 (Some ''c''))"
proof -
  have n: "''c'' \<noteq> []" by simp
  have s: "respects_must_not demo_store (SemanticSearch ''party'' 5 [''c''])" by code_simp
  have m: "respects_must_not demo_store (MoreLikeThisSearch ''party'' 5 [''c''])" by code_simp
  have r: "(case findSimilarJokes demo_store ''party'' 5 (Some ''c'') of
      Inr rs \<Rightarrow> map sim_set_id rs =
                 [Some (JStr ''a''), Some (JStr ''b''), Some (JStr ''d''), Some (JStr ''e'')]
    | Inl err \<Rightarrow> False)" by code_simp
  from findSimilar_excludes [OF n s m] r show ?thesis by simp
qed

end
